(* ===== verification/Prelude.thy ===== *)
theory Prelude
  imports Complex_Main "HOL-Library.Word"
begin

text \<open>
  Shared vocabulary of the pride-icons development: the types that name JavaScript values
  of the model (numbers, bytes, thrown errors), the sequencing of a JavaScript callback
  that may throw over an array (\<open>Array.prototype.map\<close> with a throwing callback), and the
  generic lemmas on lists and sums that the component theories use.
\<close>

section \<open>Model types\<close>

text \<open>
  A JavaScript \<open>number\<close> is modelled as a real: the store's quality, padding, angle and
  delay fields are only compared and copied, never rounded, and NaN and the infinities are
  not inputs the program produces. A byte of an RGBA buffer (\<open>Uint8ClampedArray\<close>) is an
  \<open>8 word\<close>.
\<close>

type_synonym js_number = real
type_synonym byte = "8 word"

text \<open>
  The errors a JavaScript expression of the modelled code can throw: \<open>new Error(msg)\<close>,
  and the DOMExceptions and TypeError raised by the browser APIs it calls.
\<close>

datatype js_error =
    Error string
  | IndexSizeError
  | InvalidStateError
  | TypeError

text \<open>\<open>s.startsWith(p)\<close> of JavaScript strings.\<close>

definition starts_with :: "string \<Rightarrow> string \<Rightarrow> bool" where
  "starts_with s p \<longleftrightarrow> take (length p) s = p"

named_theorems model_simps \<open>unfolding rules for the operations of the model\<close>

section \<open>Array.prototype.map with a callback that may throw\<close>

text \<open>
  \<open>xs.map(f)\<close> calls \<open>f\<close> on the elements in order and propagates the first exception;
  the results computed before it are dropped.
\<close>

fun map_js :: "('a \<Rightarrow> js_error + 'b) \<Rightarrow> 'a list \<Rightarrow> js_error + 'b list" where
  "map_js f [] = Inr []"
| "map_js f (x # xs) =
     (case f x of
        Inl e \<Rightarrow> Inl e
      | Inr y \<Rightarrow> (case map_js f xs of Inl e \<Rightarrow> Inl e | Inr ys \<Rightarrow> Inr (y # ys)))"

lemma map_js_Inr_iff:
  "map_js f xs = Inr ys \<longleftrightarrow> list_all2 (\<lambda>x y. f x = Inr y) xs ys"
proof (induction xs arbitrary: ys)
  case Nil
  then show ?case by auto
next
  case (Cons x xs)
  show ?case
  proof (cases ys)
    case Nil
    then show ?thesis by (auto split: sum.splits)
  next
    case (Cons y ys')
    then show ?thesis using Cons.IH [of ys'] by (auto split: sum.splits)
  qed
qed

lemma map_js_Inr_length: "map_js f xs = Inr ys \<Longrightarrow> length ys = length xs"
  by (simp add: map_js_Inr_iff list_all2_lengthD)

lemma map_js_Inr_nth:
  "map_js f xs = Inr ys \<Longrightarrow> i < length xs \<Longrightarrow> f (xs ! i) = Inr (ys ! i)"
  by (simp add: map_js_Inr_iff list_all2_conv_all_nth)

lemma map_js_Inr_set:
  "map_js f xs = Inr ys \<Longrightarrow> y \<in> set ys \<Longrightarrow> \<exists>x \<in> set xs. f x = Inr y"
  by (auto simp: map_js_Inr_iff list_all2_conv_all_nth in_set_conv_nth) (metis nth_mem)

lemma map_js_all_Inr:
  "(\<And>x. x \<in> set xs \<Longrightarrow> f x = Inr (g x)) \<Longrightarrow> map_js f xs = Inr (map g xs)"
  by (induction xs) auto

lemma map_js_Inl_iff:
  "(\<exists>e. map_js f xs = Inl e) \<longleftrightarrow> (\<exists>x \<in> set xs. \<exists>e. f x = Inl e)"
  by (induction xs) (auto split: sum.splits)

lemma length_ge_2I: "xs \<noteq> [] \<Longrightarrow> length xs \<noteq> Suc 0 \<Longrightarrow> 2 \<le> length xs"
  by (cases xs) (auto simp: Suc_le_eq)

section \<open>Index arithmetic of row-major RGBA buffers\<close>

text \<open>
  Byte \<open>i\<close> of a \<open>w\<close>-pixel-wide RGBA buffer belongs to pixel \<open>i div 4\<close>, at column
  \<open>(i div 4) mod w\<close> and row \<open>(i div 4) div w\<close>, channel \<open>i mod 4\<close>.
\<close>

lemma rgba_pixel_in_bounds:
  assumes "i < 4 * w * (h::nat)"
  shows "(i div 4) mod w < w" and "(i div 4) div w < h"
proof -
  from assms have p: "i div 4 < w * h" by auto
  then have "0 < w" by (cases w) auto
  then show "(i div 4) mod w < w" by simp
  from p show "(i div 4) div w < h"
    by (metis less_mult_imp_div_less mult.commute)
qed

lemma rgba_index_inverse:
  "4 * ((i div 4) div w * w + (i div 4) mod w) + i mod 4 = (i::nat)"
  by simp

end
