(* ===== verification/Raster.thy ===== *)
theory Raster
  imports Prelude
begin

text \<open>
  The raster operations \<open>src/lib/load.ts\<close> performs on each decoded GIF frame: creating a
  canvas of the logical-screen size (lines 23--25), wrapping a patch in an \<open>ImageData\<close>
  (line 30) and writing it with \<open>putImageData\<close> at the patch offset (line 31). A canvas
  bitmap and an \<open>ImageData\<close> are row-major RGBA byte buffers, as the HTML canvas
  specification lays them out; the operations follow that specification, with its
  exceptions as \<open>js_error\<close> values and the clipping of \<open>putImageData\<close> written out.
\<close>

section \<open>Canvases and image data\<close>

record canvas =
  cv_width :: nat
  cv_height :: nat
  cv_data :: "byte list"

record image_data =
  id_width :: nat
  id_height :: nat
  id_data :: "byte list"

text \<open>
  \<open>document.createElement('canvas')\<close> followed by setting \<open>width\<close> and \<open>height\<close>: a
  bitmap of that size whose every pixel is transparent black.
\<close>

definition create_canvas :: "nat \<Rightarrow> nat \<Rightarrow> canvas" where
  "create_canvas w h = \<lparr>cv_width = w, cv_height = h, cv_data = replicate (4 * w * h) 0\<rparr>"

text \<open>
  \<open>new ImageData(data, sw, sh)\<close>: the checks of the HTML specification, in its order.
\<close>

definition new_image_data :: "byte list \<Rightarrow> nat \<Rightarrow> nat \<Rightarrow> js_error + image_data" where
  "new_image_data d sw sh =
     (if length d = 0 \<or> length d mod 4 \<noteq> 0 then Inl InvalidStateError
      else if sw = 0 then Inl IndexSizeError
      else if (length d div 4) mod sw \<noteq> 0 then Inl IndexSizeError
      else if length d div 4 \<noteq> sw * sh then Inl IndexSizeError
      else Inr \<lparr>id_width = sw, id_height = sh, id_data = d\<rparr>)"

text \<open>
  \<open>ctx.putImageData(data, dx, dy)\<close>: every pixel of the image data whose target
  \<open>(dx + x, dy + y)\<close> lies on the canvas replaces that canvas pixel, all four channels,
  alpha included (no blending); targets off the canvas are dropped. Written as the canvas
  byte each result byte comes from, so that the result is computed in one pass.
\<close>

definition patch_source :: "canvas \<Rightarrow> image_data \<Rightarrow> int \<Rightarrow> int \<Rightarrow> nat \<Rightarrow> nat option" where
  "patch_source c d dx dy i =
     (let p = i div 4;
          sx = int (p mod cv_width c) - dx;
          sy = int (p div cv_width c) - dy
      in if 0 \<le> sx \<and> sx < int (id_width d) \<and> 0 \<le> sy \<and> sy < int (id_height d)
         then Some (4 * (nat sy * id_width d + nat sx) + i mod 4) else None)"

definition put_image_data :: "canvas \<Rightarrow> image_data \<Rightarrow> int \<Rightarrow> int \<Rightarrow> canvas" where
  "put_image_data c d dx dy =
     c\<lparr>cv_data := map (\<lambda>i. case patch_source c d dx dy i of
                               None \<Rightarrow> cv_data c ! i
                             | Some j \<Rightarrow> id_data d ! j) [0..<length (cv_data c)]\<rparr>"

definition canvas_wf :: "canvas \<Rightarrow> bool" where
  "canvas_wf c \<longleftrightarrow> length (cv_data c) = 4 * cv_width c * cv_height c"

definition image_data_wf :: "image_data \<Rightarrow> bool" where
  "image_data_wf d \<longleftrightarrow> length (id_data d) = 4 * id_width d * id_height d"

section \<open>Lemmas\<close>

lemma create_canvas_wf [simp]: "canvas_wf (create_canvas w h)"
  by (simp add: canvas_wf_def create_canvas_def)

lemma create_canvas_sel [simp]:
  "cv_width (create_canvas w h) = w" "cv_height (create_canvas w h) = h"
  by (simp_all add: create_canvas_def)

lemma new_image_data_Inr:
  assumes "new_image_data d sw sh = Inr img"
  shows "img = \<lparr>id_width = sw, id_height = sh, id_data = d\<rparr> \<and> image_data_wf img \<and> 0 < sw \<and> 0 < sh"
proof -
  from assms have ne: "length d \<noteq> 0" and m4: "length d mod 4 = 0"
    and eq: "length d div 4 = sw * sh" and sw: "0 < sw"
    and img: "img = \<lparr>id_width = sw, id_height = sh, id_data = d\<rparr>"
    by (auto simp: new_image_data_def split: if_splits)
  from ne m4 have len: "length d = 4 * (sw * sh)" using eq by presburger
  with ne have "0 < sh" by (cases sh) auto
  with sw img len show ?thesis by (simp add: image_data_wf_def)
qed

lemma new_image_data_ok:
  "0 < sw \<Longrightarrow> 0 < sh \<Longrightarrow> length d = 4 * sw * sh \<Longrightarrow>
     new_image_data d sw sh = Inr \<lparr>id_width = sw, id_height = sh, id_data = d\<rparr>"
  by (simp add: new_image_data_def)

lemma new_image_data_Inl_iff:
  "(\<exists>e. new_image_data d sw sh = Inl e) \<longleftrightarrow> \<not> (0 < sw \<and> 0 < sh \<and> length d = 4 * sw * sh)"
proof
  assume "\<exists>e. new_image_data d sw sh = Inl e"
  then show "\<not> (0 < sw \<and> 0 < sh \<and> length d = 4 * sw * sh)"
    using new_image_data_ok by fastforce
next
  assume "\<not> (0 < sw \<and> 0 < sh \<and> length d = 4 * sw * sh)"
  then show "\<exists>e. new_image_data d sw sh = Inl e"
    using new_image_data_Inr [of d sw sh]
    by (cases "new_image_data d sw sh") (auto simp: image_data_wf_def)
qed

lemma put_image_data_dims [simp]:
  "cv_width (put_image_data c d dx dy) = cv_width c"
  "cv_height (put_image_data c d dx dy) = cv_height c"
  "length (cv_data (put_image_data c d dx dy)) = length (cv_data c)"
  by (simp_all add: put_image_data_def)

lemma put_image_data_wf [simp]: "canvas_wf (put_image_data c d dx dy) = canvas_wf c"
  by (simp add: canvas_wf_def)

lemma put_image_data_nth:
  "i < length (cv_data c) \<Longrightarrow>
     cv_data (put_image_data c d dx dy) ! i =
       (case patch_source c d dx dy i of None \<Rightarrow> cv_data c ! i | Some j \<Rightarrow> id_data d ! j)"
  by (simp add: put_image_data_def split: option.split)

text \<open>A source index that \<open>patch_source\<close> picks lies inside a well-formed image data.\<close>

lemma patch_source_bound:
  assumes "patch_source c d dx dy i = Some j"
  shows "j < 4 * id_width d * id_height d"
proof -
  define sx where "sx = int ((i div 4) mod cv_width c) - dx"
  define sy where "sy = int ((i div 4) div cv_width c) - dy"
  from assms have in_rect: "0 \<le> sx" "sx < int (id_width d)" "0 \<le> sy" "sy < int (id_height d)"
    and j: "j = 4 * (nat sy * id_width d + nat sx) + i mod 4"
    by (auto simp: patch_source_def sx_def sy_def Let_def split: if_splits)
  have "nat sy * id_width d + nat sx < id_width d * id_height d"
  proof -
    have "nat sy + 1 \<le> id_height d" using in_rect by linarith
    then have "(nat sy + 1) * id_width d \<le> id_height d * id_width d"
      by (rule mult_right_mono) simp
    moreover have "nat sx < id_width d" using in_rect by linarith
    ultimately show ?thesis by (simp add: algebra_simps)
  qed
  then have "Suc (nat sy * id_width d + nat sx) \<le> id_width d * id_height d"
    by (simp only: Suc_le_eq)
  then have "4 * (nat sy * id_width d + nat sx) + 4 \<le> 4 * (id_width d * id_height d)"
    by simp
  moreover have "i mod 4 < 4" by simp
  ultimately show ?thesis using j by linarith
qed

lemma patch_source_offset:
  "patch_source c d (int l) (int t) i =
     (let x = (i div 4) mod cv_width c; y = (i div 4) div cv_width c
      in if l \<le> x \<and> x < l + id_width d \<and> t \<le> y \<and> y < t + id_height d
         then Some (4 * ((y - t) * id_width d + (x - l)) + i mod 4) else None)"
  by (auto simp: patch_source_def Let_def nat_diff_distrib)

lemma put_full_cover:
  assumes "canvas_wf c" "image_data_wf d" "id_width d = cv_width c" "id_height d = cv_height c"
  shows "put_image_data c d 0 0 = c\<lparr>cv_data := id_data d\<rparr>"
proof -
  have len: "length (cv_data c) = length (id_data d)"
    using assms by (simp add: canvas_wf_def image_data_wf_def)
  have "patch_source c d 0 0 i = Some i" if "i < length (cv_data c)" for i
  proof -
    from that assms(1) have "i < 4 * cv_width c * cv_height c" by (simp add: canvas_wf_def)
    note b = rgba_pixel_in_bounds [OF this]
    show ?thesis
      using patch_source_offset [of c d 0 0 i] b assms(3,4)
      by (simp add: Let_def mult.commute)
  qed
  then have "cv_data (put_image_data c d 0 0) = id_data d"
    by (intro nth_equalityI) (simp_all add: len put_image_data_nth)
  then show ?thesis by (simp add: put_image_data_def)
qed

end
