(* ===== verification/Store.thy ===== *)
theory Store
  imports Raster
begin

text \<open>
  The application store of \<open>src/components/app/Store.tsx\<close>: the \<open>State\<close> interface
  (lines 5--18), the initial state (lines 20--36), the \<open>Action\<close> union (lines 46--57) and
  the reducer handed to \<open>useReducer\<close> (lines 61--122). The reducer is not pure: it calls
  \<open>remove()\<close> on the previous image and frame elements and writes \<open>localStorage\<close>; both
  effects are part of the modelled world, next to the state.
\<close>

section \<open>State, elements and actions\<close>

text \<open>
  An \<open>HTMLImageElement\<close> made by \<open>new Image()\<close> is identified by the \<open>src\<close> it was
  given; the frames of an animation are the canvases built by \<open>loadImage\<close>. The field
  \<open>image\<close> keeps its name; it hides the bare name of HOL's set image, which the
  development writes with its notation. A flag name
  (\<open>FlagName\<close> of \<open>~lib/flags\<close>) is one of a set of string literals.
\<close>

record image_el =
  img_src :: string

type_synonym flag_name = string

record state =
  dirty :: bool
  quality :: js_number
  padding :: js_number
  angle :: js_number
  flag :: flag_name
  image :: "image_el option"
  frames :: "canvas list option"
  delay :: js_number
  showEasterEgg :: bool
  saving :: bool
  advertOpen :: bool
  shownAdvert :: bool

text \<open>
  The \<open>Action\<close> union, one constructor per \<open>type\<close> tag in the source's order. An object
  whose \<open>type\<close> is none of the eleven tags (the TypeScript type forbids it, JavaScript does
  not) is \<open>OtherAction\<close>, the reducer's \<open>default\<close> branch.
\<close>

datatype action =
    MarkClean
  | SetQuality js_number
  | SetPadding js_number
  | SetAngle js_number
  | SetFlag flag_name
  | SetImage string
  | SetGif "canvas list" js_number
  | ToggleEasterEgg
  | SetSaving bool
  | SetAdShowing bool
  | MarkAdShown
  | OtherAction string

text \<open>The DOM elements the reducer detaches with \<open>remove()\<close>.\<close>

datatype element = ImageElement image_el | CanvasElement canvas

text \<open>
  The world the reducer runs in: the React state, the browser's \<open>localStorage\<close> (a
  string-to-string map) and the log of elements \<open>remove()\<close> has been called on, in call
  order.
\<close>

record world =
  st :: state
  storage :: "string \<rightharpoonup> string"
  removed :: "element list"

section \<open>The initial state\<close>

text \<open>
  \<open>shownAdvert\<close> is \<open>false\<close> during server rendering (\<open>typeof window === 'undefined'\<close>)
  and otherwise \<open>Boolean(localStorage.getItem('shownAdvert'))\<close>: \<open>getItem\<close> gives
  \<open>null\<close> for a missing key and \<open>Boolean\<close> is false on \<open>null\<close> and on the empty string.
  The \<open>?? false\<close> never fires, since \<open>Boolean(...)\<close> is never nullish.
  \<open>js_boolean_item\<close> is line 35, \<open>Boolean(localStorage.getItem('shownAdvert')) ?? false\<close>,
  on what \<open>getItem\<close> returned; \<open>initialState\<close> is the object of lines 20--36.
\<close>

definition js_boolean_item :: "string option \<Rightarrow> bool" where
  "js_boolean_item v = (case v of None \<Rightarrow> False | Some s \<Rightarrow> s \<noteq> [])"

definition initialState :: "bool \<Rightarrow> (string \<rightharpoonup> string) \<Rightarrow> state" where
  "initialState window_defined store =
     \<lparr>dirty = True, quality = 3, padding = 12, angle = 0, flag = ''Pastel'',
      image = None, frames = None, delay = -1, showEasterEgg = False, saving = False,
      advertOpen = False,
      shownAdvert = (if \<not> window_defined then False
                     else js_boolean_item (store ''shownAdvert''))\<rparr>"

section \<open>The reducer\<close>

text \<open>
  \<open>setAngle\<close> computes the stored angle from \<open>snap = 0.25\<close> (line 73) and
  \<open>raw > snap * -1 && raw < snap ? 0 : raw\<close> (line 76): a value strictly between
  \<open>-0.25\<close> and \<open>0.25\<close> snaps to zero.
\<close>

definition snap_angle :: "js_number \<Rightarrow> js_number" where
  "snap_angle raw = (let snap = 0.25 in if raw > snap * -1 \<and> raw < snap then 0 else raw)"

text \<open>
  The release of the previous source, which \<open>setImage\<close> (lines 84--87) and \<open>setGif\<close>
  (lines 96--99, the same four lines) both do: \<open>prevState.image?.remove()\<close>, then
  \<open>remove()\<close> on each frame of \<open>prevState?.frames ?? []\<close>, in order.
  \<open>release_source\<close> lists the elements those calls detach, in call order; \<open>release\<close>
  performs the calls on the world, appending them to its log of \<open>remove()\<close> calls.
\<close>

definition release_source :: "state \<Rightarrow> element list" where
  "release_source s =
     (case image s of None \<Rightarrow> [] | Some i \<Rightarrow> [ImageElement i]) @
     map CanvasElement (case frames s of None \<Rightarrow> [] | Some fs \<Rightarrow> fs)"

definition release :: "world \<Rightarrow> world" where
  "release w = w\<lparr>removed := removed w @ release_source (st w)\<rparr>"

text \<open>
  The reducer, one equation per \<open>case\<close> of the \<open>switch\<close>. A thrown \<open>Error\<close> is the
  \<open>Inl\<close> value: no next state is produced and the error propagates out of the update.
\<close>

fun reducer :: "world \<Rightarrow> action \<Rightarrow> js_error + world" where
  "reducer w MarkClean = Inr (w\<lparr>st := (st w)\<lparr>dirty := False\<rparr>\<rparr>)"
| "reducer w (SetQuality v) = Inr (w\<lparr>st := (st w)\<lparr>dirty := True, quality := v\<rparr>\<rparr>)"
| "reducer w (SetPadding v) = Inr (w\<lparr>st := (st w)\<lparr>dirty := True, padding := v\<rparr>\<rparr>)"
| "reducer w (SetAngle v) = Inr (w\<lparr>st := (st w)\<lparr>dirty := True, angle := snap_angle v\<rparr>\<rparr>)"
| "reducer w (SetFlag v) = Inr (w\<lparr>st := (st w)\<lparr>dirty := True, flag := v\<rparr>\<rparr>)"
| "reducer w (SetImage v) =
     (let w' = release w
      in Inr (w'\<lparr>st := (st w')\<lparr>dirty := True, frames := None, delay := -1,
                                 image := Some \<lparr>img_src = v\<rparr>\<rparr>\<rparr>))"
| "reducer w (SetGif fs d) =
     (let w' = release w
      in Inr (w'\<lparr>st := (st w')\<lparr>dirty := True, image := None, frames := Some fs,
                                 delay := d\<rparr>\<rparr>))"
| "reducer w ToggleEasterEgg =
     Inr (w\<lparr>st := (st w)\<lparr>showEasterEgg := \<not> showEasterEgg (st w)\<rparr>\<rparr>)"
| "reducer w (SetSaving b) = Inr (w\<lparr>st := (st w)\<lparr>saving := b\<rparr>\<rparr>)"
| "reducer w (SetAdShowing b) = Inr (w\<lparr>st := (st w)\<lparr>advertOpen := b\<rparr>\<rparr>)"
| "reducer w MarkAdShown =
     Inr (w\<lparr>storage := (storage w)(''shownAdvert'' \<mapsto> ''1''),
            st := (st w)\<lparr>shownAdvert := True\<rparr>\<rparr>)"
| "reducer w (OtherAction t) = Inl (Error ''Invalid Action'')"

text \<open>Dispatching a sequence of actions, stopping at the first thrown error.\<close>

fun dispatch_all :: "world \<Rightarrow> action list \<Rightarrow> js_error + world" where
  "dispatch_all w [] = Inr w"
| "dispatch_all w (a # as) =
     (case reducer w a of Inl e \<Rightarrow> Inl e | Inr w' \<Rightarrow> dispatch_all w' as)"

text \<open>The actions after which the source says a redraw is owed.\<close>

fun mutating :: "action \<Rightarrow> bool" where
  "mutating (SetQuality _) = True"
| "mutating (SetPadding _) = True"
| "mutating (SetAngle _) = True"
| "mutating (SetFlag _) = True"
| "mutating (SetImage _) = True"
| "mutating (SetGif _ _) = True"
| "mutating _ = False"

text \<open>
  The invariant of the state: an image and an animation are never held together, and the
  delay is the sentinel \<open>-1\<close> whenever no animation is held.
\<close>

definition state_inv :: "state \<Rightarrow> bool" where
  "state_inv s \<longleftrightarrow>
     \<not> (image s \<noteq> None \<and> frames s \<noteq> None) \<and> (frames s = None \<longrightarrow> delay s = -1)"

section \<open>The abstract application state\<close>

text \<open>
  The application state as the design describes it: the render parameters, one source
  (none, a still image, or a sequence of frames with one delay), the dirty and saving
  flags and the durable notice flag, with its transition table. A concrete state is
  abstracted by reading the animation first, then the image.
\<close>

datatype 'f source = NoSource | StillImage string | Sequence "'f list" js_number

record app_state =
  a_dirty :: bool
  a_quality :: js_number
  a_padding :: js_number
  a_angle :: js_number
  a_palette :: flag_name
  a_source :: "canvas source"
  a_saving :: bool
  a_notice :: bool

datatype spec_action =
    markClean
  | setQuality js_number
  | setPadding js_number
  | setAngle js_number
  | setPalette flag_name
  | setImageRef string
  | setSequence "canvas list" js_number
  | setSaving bool
  | markNoticeShown

fun spec_step :: "app_state \<Rightarrow> spec_action \<Rightarrow> app_state" where
  "spec_step a markClean = a\<lparr>a_dirty := False\<rparr>"
| "spec_step a (setQuality v) = a\<lparr>a_quality := v, a_dirty := True\<rparr>"
| "spec_step a (setPadding v) = a\<lparr>a_padding := v, a_dirty := True\<rparr>"
| "spec_step a (setAngle v) = a\<lparr>a_angle := (if \<bar>v\<bar> < 0.25 then 0 else v), a_dirty := True\<rparr>"
| "spec_step a (setPalette v) = a\<lparr>a_palette := v, a_dirty := True\<rparr>"
| "spec_step a (setImageRef r) = a\<lparr>a_source := StillImage r, a_dirty := True\<rparr>"
| "spec_step a (setSequence fs d) = a\<lparr>a_source := Sequence fs d, a_dirty := True\<rparr>"
| "spec_step a (setSaving b) = a\<lparr>a_saving := b\<rparr>"
| "spec_step a markNoticeShown = a\<lparr>a_notice := True\<rparr>"

text \<open>
  The design's transition for each action; \<open>toggleEasterEgg\<close> and \<open>setAdShowing\<close> only
  touch flags outside the abstract state, and the unknown action has none.
\<close>

fun spec_action_of :: "action \<Rightarrow> spec_action option" where
  "spec_action_of MarkClean = Some markClean"
| "spec_action_of (SetQuality v) = Some (setQuality v)"
| "spec_action_of (SetPadding v) = Some (setPadding v)"
| "spec_action_of (SetAngle v) = Some (setAngle v)"
| "spec_action_of (SetFlag v) = Some (setPalette v)"
| "spec_action_of (SetImage r) = Some (setImageRef r)"
| "spec_action_of (SetGif fs d) = Some (setSequence fs d)"
| "spec_action_of (SetSaving b) = Some (setSaving b)"
| "spec_action_of MarkAdShown = Some markNoticeShown"
| "spec_action_of _ = None"

definition abs_source :: "state \<Rightarrow> canvas source" where
  "abs_source s =
     (case frames s of
        Some fs \<Rightarrow> Sequence fs (delay s)
      | None \<Rightarrow> (case image s of None \<Rightarrow> NoSource | Some i \<Rightarrow> StillImage (img_src i)))"

definition abs_state :: "state \<Rightarrow> app_state" where
  "abs_state s =
     \<lparr>a_dirty = dirty s, a_quality = quality s, a_padding = padding s, a_angle = angle s,
      a_palette = flag s, a_source = abs_source s, a_saving = saving s,
      a_notice = shownAdvert s\<rparr>"

section \<open>Lemmas on the reducer\<close>

fun_cases reducer_InrE: "reducer w a = Inr w'"

lemma reducer_Inl_iff:
  "reducer w a = Inl e \<longleftrightarrow> (\<exists>t. a = OtherAction t) \<and> e = Error ''Invalid Action''"
  by (cases a) (auto simp: Let_def)

lemma reducer_Inr_ex: "(\<forall>t. a \<noteq> OtherAction t) \<Longrightarrow> \<exists>w'. reducer w a = Inr w'"
  by (cases a) (auto simp: Let_def)

lemma release_sel [simp, model_simps]:
  "st (release w) = st w" "storage (release w) = storage w"
  "removed (release w) = removed w @ release_source (st w)"
  by (simp_all add: release_def)

lemma snap_angle_abs: "snap_angle v = (if \<bar>v\<bar> < 0.25 then 0 else v)"
  by (auto simp: snap_angle_def Let_def abs_less_iff)

lemma reducer_storage:
  "reducer w a = Inr w' \<Longrightarrow>
     storage w' = (if a = MarkAdShown then (storage w)(''shownAdvert'' \<mapsto> ''1'') else storage w)"
  by (erule reducer_InrE) (simp_all add: Let_def)

lemma reducer_removed:
  "reducer w a = Inr w' \<Longrightarrow>
     removed w' = (if (\<exists>v. a = SetImage v) \<or> (\<exists>fs d. a = SetGif fs d)
                   then removed w @ release_source (st w) else removed w)"
  by (erule reducer_InrE) (simp_all add: Let_def)

lemma reducer_state_inv:
  "state_inv (st w) \<Longrightarrow> reducer w a = Inr w' \<Longrightarrow> state_inv (st w')"
  by (erule reducer_InrE) (simp_all add: state_inv_def Let_def)

lemma reducer_frames:
  "reducer w a = Inr w' \<Longrightarrow>
     frames (st w') = (case a of SetImage _ \<Rightarrow> None | SetGif fs _ \<Rightarrow> Some fs | _ \<Rightarrow> frames (st w))"
  by (erule reducer_InrE) (simp_all add: Let_def)

lemma state_inv_initial [simp]: "state_inv (initialState b m)"
  by (simp add: state_inv_def initialState_def)

lemma dispatch_all_append:
  "dispatch_all w (as @ bs) =
     (case dispatch_all w as of Inl e \<Rightarrow> Inl e | Inr w' \<Rightarrow> dispatch_all w' bs)"
  by (induction w as rule: dispatch_all.induct) (auto split: sum.splits)

section \<open>Properties of the store\<close>

text \<open>
  C10. The dirty flag after every action that the reducer accepts: \<open>setQuality\<close>,
  \<open>setPadding\<close>, \<open>setAngle\<close>, \<open>setFlag\<close>, \<open>setImage\<close> and \<open>setGif\<close> set it,
  \<open>markClean\<close> clears it, and every other action leaves it as it was.
\<close>

theorem reducer_dirty:
  assumes "reducer w a = Inr w'"
  shows "dirty (st w') = (if mutating a then True else if a = MarkClean then False else dirty (st w))"
  using assms by (rule reducer_InrE) (simp_all add: Let_def)

theorem reducer_dirty_witness:
  "dirty (st (projr (reducer \<lparr>st = initialState True Map.empty, storage = Map.empty, removed = []\<rparr>
                              (SetPadding 20)))) = True"
proof -
  let ?w = "\<lparr>st = initialState True Map.empty, storage = Map.empty, removed = []\<rparr>"
  have r: "reducer ?w (SetPadding 20) = Inr (?w\<lparr>st := (st ?w)\<lparr>dirty := True, padding := 20\<rparr>\<rparr>)"
    by simp
  show ?thesis using reducer_dirty [OF r] by simp
qed

text \<open>
  C11. Every accepted action keeps the state invariant: never an image and an animation
  at once, and the delay sentinel \<open>-1\<close> whenever there is no animation.
\<close>

theorem reducer_preserves_state_inv:
  assumes "state_inv (st w)" and "reducer w a = Inr w'"
  shows "state_inv (st w')"
  using assms by (rule reducer_state_inv)

theorem reducer_preserves_state_inv_witness:
  "state_inv (st (projr (reducer \<lparr>st = initialState True Map.empty, storage = Map.empty, removed = []\<rparr>
                                (SetImage ''blob:1''))))"
proof -
  let ?w = "\<lparr>st = initialState True Map.empty, storage = Map.empty, removed = []\<rparr>"
  have i: "state_inv (st ?w)" by simp
  obtain w' where r: "reducer ?w (SetImage ''blob:1'') = Inr w'" by (simp add: Let_def)
  show ?thesis using reducer_preserves_state_inv [OF i r] r by simp
qed

text \<open>
  C12. The reducer refines the design's transition table: the abstraction of the state
  after an accepted action is the abstract transition of that action applied to the
  abstraction of the state before, and the actions outside the table leave the abstract
  state unchanged.
\<close>

theorem reducer_refines_spec:
  assumes "reducer w a = Inr w'"
  shows "abs_state (st w') =
           (case spec_action_of a of None \<Rightarrow> abs_state (st w)
                                   | Some sa \<Rightarrow> spec_step (abs_state (st w)) sa)"
  using assms
  by (rule reducer_InrE)
     (simp_all add: abs_state_def abs_source_def snap_angle_abs Let_def split: option.split)

theorem reducer_refines_spec_witness:
  "abs_state (st (projr (reducer \<lparr>st = initialState True Map.empty, storage = Map.empty, removed = []\<rparr>
                                (SetAngle 0.1)))) =
     spec_step (abs_state (initialState True Map.empty)) (setAngle 0.1)"
proof -
  let ?w = "\<lparr>st = initialState True Map.empty, storage = Map.empty, removed = []\<rparr>"
  obtain w' where r: "reducer ?w (SetAngle 0.1) = Inr w'" by simp
  show ?thesis using reducer_refines_spec [OF r] r by simp
qed

text \<open>
  C13. \<open>setAngle v\<close> stores \<open>0\<close> when \<open>|v| < 0.25\<close> and \<open>v\<close> itself otherwise, marks the
  state dirty and changes nothing else.
\<close>

theorem set_angle_snaps:
  "reducer w (SetAngle v) =
     Inr (w\<lparr>st := (st w)\<lparr>dirty := True, angle := (if \<bar>v\<bar> < 0.25 then 0 else v)\<rparr>\<rparr>)"
  by (simp add: snap_angle_abs)

text \<open>
  C14. \<open>setImage\<close> immediately followed by \<open>setGif\<close> leaves only the animation, and the
  elements released are, in order, the previous image, the previous frames and the image
  that \<open>setImage\<close> installed.
\<close>

theorem image_then_gif_releases:
  assumes "dispatch_all w [SetImage r, SetGif fs d] = Inr w'"
  shows "image (st w') = None \<and> frames (st w') = Some fs \<and> delay (st w') = d \<and>
         removed w' = removed w @ (case image (st w) of None \<Rightarrow> [] | Some i \<Rightarrow> [ImageElement i]) @
                      map CanvasElement (case frames (st w) of None \<Rightarrow> [] | Some fs \<Rightarrow> fs) @
                      [ImageElement \<lparr>img_src = r\<rparr>]"
  using assms by (auto simp: Let_def release_source_def)

theorem image_then_gif_releases_witness:
  "frames (st (projr (dispatch_all \<lparr>st = initialState True Map.empty, storage = Map.empty, removed = []\<rparr>
                     [SetImage ''blob:a'', SetGif [create_canvas 1 1, create_canvas 1 1] 70]))) =
     Some [create_canvas 1 1, create_canvas 1 1]"
proof -
  let ?w = "\<lparr>st = initialState True Map.empty, storage = Map.empty, removed = []\<rparr>"
  obtain w' where r: "dispatch_all ?w [SetImage ''blob:a'', SetGif [create_canvas 1 1, create_canvas 1 1] 70] = Inr w'"
    by (simp add: Let_def)
  show ?thesis using image_then_gif_releases [OF r] r by simp
qed

text \<open>
  C15. Dispatching a sequence of actions throws exactly when the sequence holds an action
  whose tag is none of the eleven, and then always with \<open>Error('Invalid Action')\<close>:
  every known action is accepted in every state, so no other error can arise.
\<close>

theorem dispatch_rejects_unknown:
  "(case dispatch_all w as of
      Inl e \<Rightarrow> e = Error ''Invalid Action'' \<and> (\<exists>t. OtherAction t \<in> set as)
    | Inr w' \<Rightarrow> (\<forall>t. OtherAction t \<notin> set as))"
proof (induction as arbitrary: w)
  case Nil
  then show ?case by simp
next
  case (Cons a as)
  show ?case
  proof (cases "\<exists>t. a = OtherAction t")
    case True
    then show ?thesis by (auto simp: reducer_Inl_iff)
  next
    case False
    then obtain w1 where r: "reducer w a = Inr w1" using reducer_Inr_ex by blast
    with False Cons.IH [of w1] show ?thesis by (auto split: sum.splits)
  qed
qed

text \<open>
  C16. \<open>markAdShown\<close> persists: the next session's initial state, read from the storage
  the action wrote, has \<open>shownAdvert\<close> set, and no other storage key changed.
\<close>

theorem mark_ad_shown_persists:
  assumes "reducer w MarkAdShown = Inr w'"
  shows "shownAdvert (initialState True (storage w')) \<and>
         (\<forall>k. k \<noteq> ''shownAdvert'' \<longrightarrow> storage w' k = storage w k)"
  using reducer_storage [OF assms] by (simp add: initialState_def js_boolean_item_def)

theorem mark_ad_shown_persists_witness:
  "shownAdvert (initialState True (storage (projr (reducer
      \<lparr>st = initialState True Map.empty, storage = Map.empty, removed = []\<rparr> MarkAdShown))))"
proof -
  let ?w = "\<lparr>st = initialState True Map.empty, storage = Map.empty, removed = []\<rparr>"
  obtain w' where r: "reducer ?w MarkAdShown = Inr w'" by simp
  show ?thesis using mark_ad_shown_persists [OF r] r by simp
qed

text \<open>
  C28. Once \<open>markClean\<close> has run, the state stays clean through any sequence of actions none
  of which is a mutating one (\<open>setSaving\<close>, \<open>markAdShown\<close>, \<open>toggleEasterEgg\<close>, ...): only a
  mutating action owes a redraw again.
\<close>

theorem clean_until_mutation:
  assumes "dispatch_all w (MarkClean # as) = Inr w'" and "\<forall>a\<in>set as. \<not> mutating a"
  shows "\<not> dirty (st w')"
proof -
  have "dispatch_all w0 as = Inr w' \<Longrightarrow> \<not> dirty (st w0) \<Longrightarrow> \<not> dirty (st w')" for w0
    using assms(2)
  proof (induction as arbitrary: w0)
    case Nil
    then show ?case by simp
  next
    case (Cons a as)
    then obtain w1 where r: "reducer w0 a = Inr w1" and rest: "dispatch_all w1 as = Inr w'"
      by (auto split: sum.splits)
    have "\<not> dirty (st w1)"
      using r Cons.prems(2,3) by (auto elim!: reducer_InrE simp: Let_def)
    with rest Cons.prems(3) show ?case by (intro Cons.IH) auto
  qed
  with assms(1) show ?thesis by (auto split: sum.splits)
qed

theorem clean_until_mutation_witness:
  "\<not> dirty (st (projr (dispatch_all \<lparr>st = initialState True Map.empty, storage = Map.empty, removed = []\<rparr>
                        [MarkClean, SetSaving True, MarkAdShown, SetSaving False])))"
proof -
  let ?w = "\<lparr>st = initialState True Map.empty, storage = Map.empty, removed = []\<rparr>"
  obtain w' where r: "dispatch_all ?w [MarkClean, SetSaving True, MarkAdShown, SetSaving False] = Inr w'"
    by simp
  have "\<forall>a\<in>set [SetSaving True, MarkAdShown, SetSaving False]. \<not> mutating a" by simp
  then show ?thesis using clean_until_mutation [OF r] r by simp
qed

text \<open>
  C29. The other order of C14: \<open>setGif\<close> immediately followed by \<open>setImage\<close> leaves only the
  still image with the sentinel delay, and the removals are the old source's elements, then
  the frames of the animation just installed.
\<close>

theorem gif_then_image_releases:
  assumes "dispatch_all w [SetGif fs d, SetImage r] = Inr w'"
  shows "image (st w') = Some \<lparr>img_src = r\<rparr> \<and> frames (st w') = None \<and> delay (st w') = -1 \<and>
         removed w' = removed w @ (case image (st w) of None \<Rightarrow> [] | Some i \<Rightarrow> [ImageElement i]) @
                      map CanvasElement (case frames (st w) of None \<Rightarrow> [] | Some fs \<Rightarrow> fs) @
                      map CanvasElement fs"
  using assms by (auto simp: Let_def release_source_def)

theorem gif_then_image_releases_witness:
  "removed (projr (dispatch_all \<lparr>st = initialState True Map.empty, storage = Map.empty, removed = []\<rparr>
                     [SetGif [create_canvas 1 1, create_canvas 2 1] 70, SetImage ''blob:b''])) =
     [CanvasElement (create_canvas 1 1), CanvasElement (create_canvas 2 1)]"
proof -
  let ?w = "\<lparr>st = initialState True Map.empty, storage = Map.empty, removed = []\<rparr>"
  obtain w' where r: "dispatch_all ?w [SetGif [create_canvas 1 1, create_canvas 2 1] 70, SetImage ''blob:b''] = Inr w'"
    by (simp add: Let_def)
  show ?thesis using gif_then_image_releases [OF r] unfolding r by (simp add: initialState_def)
qed

text \<open>
  C30. The reducer's effects outside the state: a successful action changes the persisted
  storage only when it is \<open>markAdShown\<close>, and removes DOM elements only when it is
  \<open>setImage\<close> or \<open>setGif\<close>.
\<close>

theorem reducer_effects:
  assumes "reducer w a = Inr w'"
  shows "(storage w' \<noteq> storage w \<longrightarrow> a = MarkAdShown) \<and>
         (removed w' \<noteq> removed w \<longrightarrow> (\<exists>v. a = SetImage v) \<or> (\<exists>fs d. a = SetGif fs d))"
  using reducer_storage [OF assms] reducer_removed [OF assms] by auto

theorem reducer_effects_witness:
  "storage (projr (reducer \<lparr>st = initialState True Map.empty, storage = Map.empty, removed = []\<rparr> (SetQuality 5))) =
     Map.empty"
proof -
  let ?w = "\<lparr>st = initialState True Map.empty, storage = Map.empty, removed = []\<rparr>"
  obtain w' where r: "reducer ?w (SetQuality 5) = Inr w'" by simp
  show ?thesis using reducer_effects [OF r] r by simp
qed

text \<open>
  C33. Across sessions: after any run of actions from a session started on storage \<open>m\<close>,
  the next session starts with the advert marked shown exactly when this one did or the
  run contained \<open>markAdShown\<close>. (\<open>Boolean(getItem(...))\<close> counts any non-empty stored
  string as shown, even \<open>''0''\<close>; only \<open>markAdShown\<close> writes the key.)
\<close>

theorem initial_advert_flag:
  assumes "dispatch_all \<lparr>st = initialState True m, storage = m, removed = []\<rparr> as = Inr w'"
  shows "shownAdvert (initialState True (storage w')) \<longleftrightarrow>
           shownAdvert (initialState True m) \<or> MarkAdShown \<in> set as"
proof -
  have "dispatch_all w as = Inr w' \<Longrightarrow>
        shownAdvert (initialState True (storage w')) \<longleftrightarrow>
          shownAdvert (initialState True (storage w)) \<or> MarkAdShown \<in> set as" for w
  proof (induction as arbitrary: w)
    case Nil
    then show ?case by simp
  next
    case (Cons a as)
    then obtain w1 where r: "reducer w a = Inr w1" and rest: "dispatch_all w1 as = Inr w'"
      by (auto split: sum.splits)
    show ?case
      using Cons.IH [OF rest] reducer_storage [OF r]
      by (auto simp: initialState_def js_boolean_item_def)
  qed
  from this [OF assms] show ?thesis by simp
qed

theorem initial_advert_flag_witness:
  "\<not> shownAdvert (initialState True (storage (projr (dispatch_all
      \<lparr>st = initialState True (Map.empty(''shownAdvert'' \<mapsto> '''')), storage = Map.empty(''shownAdvert'' \<mapsto> ''''),
         removed = []\<rparr> [SetQuality 5, SetSaving True]))))"
proof -
  let ?m = "Map.empty(''shownAdvert'' \<mapsto> '''')"
  obtain w' where r: "dispatch_all \<lparr>st = initialState True ?m, storage = ?m, removed = []\<rparr>
                        [SetQuality 5, SetSaving True] = Inr w'"
    by simp
  show ?thesis using initial_advert_flag [OF r] unfolding r
    by (simp add: initialState_def js_boolean_item_def)
qed

end
