(* ===== verification/Load.thy ===== *)
theory Load
  imports Store
begin

text \<open>
  \<open>loadImage\<close> of \<open>src/lib/load.ts\<close>: a dropped file that is not a GIF becomes a
  \<open>setImage\<close> of its object URL; a GIF is parsed and decompressed by gifuct-js, a
  one-frame GIF becomes a \<open>setImage\<close> too, and a GIF of two or more frames becomes one
  canvas per frame (each holding only that frame's patch at its offset) and a
  \<open>setGif\<close> with the first frame's delay. The library calls (\<open>URL.createObjectURL\<close>,
  \<open>parseGIF\<close>, \<open>decompressFrames\<close>) and the availability of a 2D context are the
  environment of the loader; the raster operations are those of theory Raster.
\<close>

section \<open>Files, parsed GIFs and the loader's environment\<close>

record js_file =
  file_type :: string
  file_bytes :: "byte list"

text \<open>gifuct-js's view of a GIF: the logical screen descriptor and the decompressed frames.\<close>

record gif =
  lsd_width :: nat
  lsd_height :: nat

record frame_dims =
  d_width :: nat
  d_height :: nat
  d_top :: nat
  d_left :: nat

record parsed_frame =
  patch :: "byte list"
  dims :: frame_dims
  fr_delay :: js_number

record loader_env =
  create_object_url :: "js_file \<Rightarrow> string"
  parse_gif :: "byte list \<Rightarrow> js_error + gif"
  decompress_frames :: "gif \<Rightarrow> js_error + parsed_frame list"
  context_available :: bool

text \<open>
  What a call of the async \<open>loadImage\<close> does: the actions it dispatched, in order, and
  whether its promise resolved (\<open>Inr ()\<close>) or rejected with an error.
\<close>

record load_outcome =
  dispatched :: "action list"
  completion :: "js_error + unit"

section \<open>The loader\<close>

text \<open>
  The callback of \<open>decoded.map\<close> (lines 22--34): a fresh canvas of the logical-screen
  size, its 2D context (\<open>throw new Error('oh no')\<close> when there is none), the patch as
  an \<open>ImageData\<close> of the frame's own size, written at the frame's offset.
\<close>

definition frame_canvas :: "loader_env \<Rightarrow> gif \<Rightarrow> parsed_frame \<Rightarrow> js_error + canvas" where
  "frame_canvas env g fr =
     (let c = create_canvas (lsd_width g) (lsd_height g)
      in if \<not> context_available env then Inl (Error ''oh no'')
         else case new_image_data (patch fr) (d_width (dims fr)) (d_height (dims fr)) of
                Inl e \<Rightarrow> Inl e
              | Inr d \<Rightarrow> Inr (put_image_data c d (int (d_left (dims fr))) (int (d_top (dims fr)))))"

definition resolved :: "action list \<Rightarrow> load_outcome" where
  "resolved as = \<lparr>dispatched = as, completion = Inr ()\<rparr>"

definition rejected :: "js_error \<Rightarrow> load_outcome" where
  "rejected e = \<lparr>dispatched = [], completion = Inl e\<rparr>"

definition loadImage :: "loader_env \<Rightarrow> js_file \<Rightarrow> load_outcome" where
  "loadImage env f =
     (if file_type f \<noteq> ''image/gif'' then resolved [SetImage (create_object_url env f)]
      else case parse_gif env (file_bytes f) of
        Inl e \<Rightarrow> rejected e
      | Inr g \<Rightarrow>
          (case decompress_frames env g of
             Inl e \<Rightarrow> rejected e
           | Inr decoded \<Rightarrow>
               if length decoded = 0 then resolved []
               else if length decoded = 1 then resolved [SetImage (create_object_url env f)]
               else
                 (let d = fr_delay (hd decoded)
                  in case map_js (frame_canvas env g) decoded of
                       Inl e \<Rightarrow> rejected e
                     | Inr fs \<Rightarrow> resolved [SetGif fs d])))"

section \<open>Reference behaviour\<close>

text \<open>
  What byte \<open>i\<close> of the canvas of a frame holds, pixel by pixel: the patch's byte for
  a pixel inside the frame's rectangle, transparent black outside it.
\<close>

definition frame_pixel_byte :: "nat \<Rightarrow> parsed_frame \<Rightarrow> nat \<Rightarrow> byte" where
  "frame_pixel_byte w fr i =
     (let x = (i div 4) mod w; y = (i div 4) div w; dm = dims fr
      in if d_left dm \<le> x \<and> x < d_left dm + d_width dm \<and> d_top dm \<le> y \<and> y < d_top dm + d_height dm
         then patch fr ! (4 * ((y - d_top dm) * d_width dm + (x - d_left dm)) + i mod 4)
         else 0)"

text \<open>
  The design's decoder (a persistent canvas that each patch advances, copied into each
  output frame), as a fold over the frames with the canvas as accumulator.
\<close>

definition frame_image :: "parsed_frame \<Rightarrow> image_data" where
  "frame_image fr = \<lparr>id_width = d_width (dims fr), id_height = d_height (dims fr), id_data = patch fr\<rparr>"

fun composite_frames :: "canvas \<Rightarrow> parsed_frame list \<Rightarrow> canvas list" where
  "composite_frames acc [] = []"
| "composite_frames acc (fr # frs) =
     (let out = put_image_data acc (frame_image fr) (int (d_left (dims fr))) (int (d_top (dims fr)))
      in out # composite_frames out frs)"

definition valid_patch :: "parsed_frame \<Rightarrow> bool" where
  "valid_patch fr \<longleftrightarrow>
     0 < d_width (dims fr) \<and> 0 < d_height (dims fr) \<and>
     length (patch fr) = 4 * d_width (dims fr) * d_height (dims fr)"

section \<open>Lemmas\<close>

lemma frame_canvas_Inr:
  "frame_canvas env g fr = Inr c \<longleftrightarrow>
     context_available env \<and> valid_patch fr \<and>
     c = put_image_data (create_canvas (lsd_width g) (lsd_height g)) (frame_image fr)
           (int (d_left (dims fr))) (int (d_top (dims fr)))"
proof (cases "new_image_data (patch fr) (d_width (dims fr)) (d_height (dims fr))")
  case (Inl e)
  then have "\<not> valid_patch fr"
    using new_image_data_Inl_iff [of "patch fr" "d_width (dims fr)" "d_height (dims fr)"]
    by (auto simp: valid_patch_def)
  with Inl show ?thesis by (simp add: frame_canvas_def Let_def)
next
  case (Inr d)
  then have "valid_patch fr \<and> d = frame_image fr"
    using new_image_data_Inr [OF Inr] by (auto simp: valid_patch_def frame_image_def image_data_wf_def)
  with Inr show ?thesis by (auto simp: frame_canvas_def Let_def)
qed

lemma frame_canvas_Inl_iff:
  "(\<exists>e. frame_canvas env g fr = Inl e) \<longleftrightarrow> \<not> (context_available env \<and> valid_patch fr)"
  using frame_canvas_Inr [of env g fr] by (cases "frame_canvas env g fr") auto

lemma frame_canvas_shape:
  "frame_canvas env g fr = Inr c \<Longrightarrow>
     cv_width c = lsd_width g \<and> cv_height c = lsd_height g \<and> canvas_wf c"
  by (simp add: frame_canvas_Inr)

lemma composite_full_frames:
  assumes "canvas_wf acc" "cv_width acc = w" "cv_height acc = h"
    and "\<forall>fr\<in>set frs. valid_patch fr \<and> dims fr = \<lparr>d_width = w, d_height = h, d_top = 0, d_left = 0\<rparr>"
  shows "composite_frames acc frs = map (\<lambda>fr. acc\<lparr>cv_data := patch fr\<rparr>) frs"
  using assms
proof (induction frs arbitrary: acc)
  case Nil
  then show ?case by simp
next
  case (Cons fr frs)
  have full: "put_image_data acc (frame_image fr) 0 0 = acc\<lparr>cv_data := patch fr\<rparr>"
    using Cons.prems by (simp add: put_full_cover valid_patch_def image_data_wf_def frame_image_def)
  have "canvas_wf (acc\<lparr>cv_data := patch fr\<rparr>)"
    using Cons.prems by (simp add: canvas_wf_def valid_patch_def)
  then have "composite_frames (acc\<lparr>cv_data := patch fr\<rparr>) frs =
               map (\<lambda>fr. acc\<lparr>cv_data := patch fr\<rparr>) frs"
    using Cons.prems Cons.IH [of "acc\<lparr>cv_data := patch fr\<rparr>"] by simp
  then show ?case using Cons.prems full by (simp add: Let_def)
qed

lemma load_image_gif:
  assumes "file_type f = ''image/gif''" "parse_gif env (file_bytes f) = Inr g"
    and "decompress_frames env g = Inr decoded"
  shows "loadImage env f =
           (if length decoded = 0 then resolved []
            else if length decoded = 1 then resolved [SetImage (create_object_url env f)]
            else case map_js (frame_canvas env g) decoded of
                   Inl e \<Rightarrow> rejected e
                 | Inr fs \<Rightarrow> resolved [SetGif fs (fr_delay (hd decoded))])"
  using assms by (simp add: loadImage_def Let_def)

lemma load_image_SetGif:
  assumes "SetGif fs d \<in> set (dispatched (loadImage env f))"
  shows "\<exists>g decoded. parse_gif env (file_bytes f) = Inr g \<and> decompress_frames env g = Inr decoded \<and>
           2 \<le> length decoded \<and> map_js (frame_canvas env g) decoded = Inr fs \<and>
           d = fr_delay (hd decoded)"
  using assms
  by (auto simp: loadImage_def resolved_def rejected_def Let_def split: if_splits sum.splits
           intro: length_ge_2I)

lemma load_image_frames_shape:
  assumes "SetGif fs d \<in> set (dispatched (loadImage env f))"
  shows "2 \<le> length fs \<and> (\<exists>w h. \<forall>c\<in>set fs. cv_width c = w \<and> cv_height c = h \<and> canvas_wf c)"
proof -
  from load_image_SetGif [OF assms] obtain g decoded where
    m: "map_js (frame_canvas env g) decoded = Inr fs" and n: "2 \<le> length decoded"
    by blast
  have "\<forall>c\<in>set fs. cv_width c = lsd_width g \<and> cv_height c = lsd_height g \<and> canvas_wf c"
    using map_js_Inr_set [OF m] frame_canvas_shape by blast
  with n map_js_Inr_length [OF m] show ?thesis by auto
qed

lemma load_image_dispatched:
  "dispatched (loadImage env f) = [] \<or>
   dispatched (loadImage env f) = [SetImage (create_object_url env f)] \<or>
   (\<exists>fs d. dispatched (loadImage env f) = [SetGif fs d])"
  by (auto simp: loadImage_def resolved_def rejected_def Let_def split: sum.split)

section \<open>Properties of the loader\<close>

text \<open>
  C1. The canvas \<open>loadImage\<close> builds for one frame has the logical screen's size and a
  well-formed bitmap, and its byte \<open>i\<close> is the patch's byte for a pixel inside the frame's
  rectangle (at the frame's offset, clipped to the screen) and transparent black outside.
\<close>

theorem frame_canvas_pixels:
  assumes "frame_canvas env g fr = Inr c"
  shows "cv_width c = lsd_width g \<and> cv_height c = lsd_height g \<and> canvas_wf c \<and>
         (\<forall>i < 4 * lsd_width g * lsd_height g. cv_data c ! i = frame_pixel_byte (lsd_width g) fr i)"
proof -
  from assms have c: "c = put_image_data (create_canvas (lsd_width g) (lsd_height g)) (frame_image fr)
                          (int (d_left (dims fr))) (int (d_top (dims fr)))"
    by (simp add: frame_canvas_Inr)
  have "cv_data c ! i = frame_pixel_byte (lsd_width g) fr i"
    if "i < 4 * lsd_width g * lsd_height g" for i
    using that c patch_source_offset
    by (simp add: put_image_data_nth frame_pixel_byte_def frame_image_def Let_def create_canvas_def)
  with assms show ?thesis by (simp add: frame_canvas_shape)
qed

theorem frame_canvas_pixels_witness:
  "cv_data (projr (frame_canvas
     \<lparr>create_object_url = \<lambda>_. '''', parse_gif = \<lambda>_. Inl TypeError, decompress_frames = \<lambda>_. Inr [],
      context_available = True\<rparr>
     \<lparr>lsd_width = 2, lsd_height = 1\<rparr>
     \<lparr>patch = [2, 2, 2, 2], dims = \<lparr>d_width = 1, d_height = 1, d_top = 0, d_left = 1\<rparr>, fr_delay = 70\<rparr>)) ! 1 = 0"
proof -
  let ?env = "\<lparr>create_object_url = \<lambda>_. '''', parse_gif = \<lambda>_. Inl TypeError, decompress_frames = \<lambda>_. Inr [],
      context_available = True\<rparr>"
  let ?g = "\<lparr>lsd_width = 2, lsd_height = 1\<rparr> :: gif"
  let ?fr = "\<lparr>patch = [2, 2, 2, 2], dims = \<lparr>d_width = 1, d_height = 1, d_top = 0, d_left = 1\<rparr>,
             fr_delay = 70\<rparr> :: parsed_frame"
  have r: "frame_canvas ?env ?g ?fr = Inr (projr (frame_canvas ?env ?g ?fr))"
    by (simp add: frame_canvas_def new_image_data_def Let_def)
  have "\<forall>i < 4 * 2 * 1. cv_data (projr (frame_canvas ?env ?g ?fr)) ! i = frame_pixel_byte 2 ?fr i"
    using frame_canvas_pixels [OF r] by simp
  then have "cv_data (projr (frame_canvas ?env ?g ?fr)) ! 1 = frame_pixel_byte 2 ?fr 1" by simp
  then show ?thesis by (simp add: frame_pixel_byte_def)
qed

text \<open>
  C2. The frames are not composited: there is a two-frame GIF for which the canvases
  \<open>loadImage\<close> dispatches differ from the design's frames, where each frame is the previous
  one with the next patch painted on it (the second canvas holds only its own patch).
\<close>

theorem frames_not_composited:
  "\<exists>env f g decoded fs d.
     parse_gif env (file_bytes f) = Inr g \<and> decompress_frames env g = Inr decoded \<and>
     loadImage env f = resolved [SetGif fs d] \<and>
     fs \<noteq> composite_frames (create_canvas (lsd_width g) (lsd_height g)) decoded"
proof -
  let ?g = "\<lparr>lsd_width = 2, lsd_height = 1\<rparr> :: gif"
  let ?fr0 = "\<lparr>patch = [1, 1, 1, 1, 1, 1, 1, 1], dims = \<lparr>d_width = 2, d_height = 1, d_top = 0, d_left = 0\<rparr>,
               fr_delay = 70\<rparr> :: parsed_frame"
  let ?fr1 = "\<lparr>patch = [2, 2, 2, 2], dims = \<lparr>d_width = 1, d_height = 1, d_top = 0, d_left = 1\<rparr>,
               fr_delay = 70\<rparr> :: parsed_frame"
  let ?env = "\<lparr>create_object_url = \<lambda>_. ''blob:gif'', parse_gif = \<lambda>_. Inr ?g,
               decompress_frames = \<lambda>_. Inr [?fr0, ?fr1], context_available = True\<rparr>"
  let ?f = "\<lparr>file_type = ''image/gif'', file_bytes = []\<rparr>"
  let ?c0 = "\<lparr>cv_width = 2, cv_height = 1, cv_data = [1, 1, 1, 1, 1, 1, 1, 1]\<rparr>"
  let ?c1 = "\<lparr>cv_width = 2, cv_height = 1, cv_data = [0, 0, 0, 0, 2, 2, 2, 2]\<rparr>"
  let ?c1' = "\<lparr>cv_width = 2, cv_height = 1, cv_data = [1, 1, 1, 1, 2, 2, 2, 2]\<rparr>"
  have load: "loadImage ?env ?f = resolved [SetGif [?c0, ?c1] 70]"
    by (simp add: loadImage_def frame_canvas_def new_image_data_def put_image_data_def
        patch_source_def create_canvas_def upt_rec)
  have comp: "composite_frames (create_canvas (lsd_width ?g) (lsd_height ?g)) [?fr0, ?fr1] = [?c0, ?c1']"
    by (simp add: frame_image_def put_image_data_def patch_source_def create_canvas_def upt_rec)
  show ?thesis
  proof (intro exI conjI)
    show "parse_gif ?env (file_bytes ?f) = Inr ?g" by simp
    show "decompress_frames ?env ?g = Inr [?fr0, ?fr1]" by simp
    show "loadImage ?env ?f = resolved [SetGif [?c0, ?c1] 70]" by (rule load)
    show "[?c0, ?c1] \<noteq> composite_frames (create_canvas (lsd_width ?g) (lsd_height ?g)) [?fr0, ?fr1]"
      by (simp only: comp) simp
  qed
qed

text \<open>
  C3. A GIF of two or more frames, all with well-formed patches and a 2D context available,
  is dispatched as one \<open>setGif\<close> whose frames are the frame canvases in order and whose delay
  is the first frame's delay.
\<close>

theorem load_gif_sequence:
  assumes "file_type f = ''image/gif''" "parse_gif env (file_bytes f) = Inr g"
    and "decompress_frames env g = Inr decoded" and "2 \<le> length decoded"
    and "context_available env" and "\<forall>fr\<in>set decoded. valid_patch fr"
  shows "loadImage env f =
           resolved [SetGif (map (\<lambda>fr. put_image_data (create_canvas (lsd_width g) (lsd_height g))
                                    (frame_image fr) (int (d_left (dims fr))) (int (d_top (dims fr))))
                               decoded)
                            (fr_delay (decoded ! 0))]"
proof -
  have "map_js (frame_canvas env g) decoded =
          Inr (map (\<lambda>fr. put_image_data (create_canvas (lsd_width g) (lsd_height g))
                          (frame_image fr) (int (d_left (dims fr))) (int (d_top (dims fr)))) decoded)"
    using assms(5,6) by (intro map_js_all_Inr) (simp add: frame_canvas_Inr)
  moreover have "hd decoded = decoded ! 0" using assms(4) by (cases decoded) auto
  moreover have "\<not> length decoded = 0" "\<not> length decoded = 1" using assms(4) by auto
  ultimately show ?thesis using assms(1-3) by (simp only: load_image_gif if_False sum.case)
qed

theorem load_gif_sequence_witness:
  "\<exists>fs. loadImage
     \<lparr>create_object_url = \<lambda>_. ''blob:gif'', parse_gif = \<lambda>_. Inr \<lparr>lsd_width = 1, lsd_height = 1\<rparr>,
      decompress_frames = \<lambda>_. Inr [\<lparr>patch = [1, 1, 1, 1], dims = \<lparr>d_width = 1, d_height = 1, d_top = 0, d_left = 0\<rparr>, fr_delay = 40\<rparr>,
                                 \<lparr>patch = [2, 2, 2, 2], dims = \<lparr>d_width = 1, d_height = 1, d_top = 0, d_left = 0\<rparr>, fr_delay = 90\<rparr>],
      context_available = True\<rparr>
     \<lparr>file_type = ''image/gif'', file_bytes = []\<rparr> = resolved [SetGif fs 40] \<and> length fs = 2"
proof -
  let ?frs = "[\<lparr>patch = [1, 1, 1, 1], dims = \<lparr>d_width = 1, d_height = 1, d_top = 0, d_left = 0\<rparr>, fr_delay = 40\<rparr>,
               \<lparr>patch = [2, 2, 2, 2], dims = \<lparr>d_width = 1, d_height = 1, d_top = 0, d_left = 0\<rparr>, fr_delay = 90\<rparr>]
               :: parsed_frame list"
  let ?env = "\<lparr>create_object_url = \<lambda>_. ''blob:gif'', parse_gif = \<lambda>_. Inr \<lparr>lsd_width = 1, lsd_height = 1\<rparr>,
      decompress_frames = \<lambda>_. Inr ?frs, context_available = True\<rparr>"
  let ?f = "\<lparr>file_type = ''image/gif'', file_bytes = []\<rparr>"
  show ?thesis
    using load_gif_sequence [where f = ?f and env = ?env and g = "\<lparr>lsd_width = 1, lsd_height = 1\<rparr>"
        and decoded = ?frs]
    by (simp add: valid_patch_def numeral_2_eq_2 resolved_def)
qed

text \<open>
  C4. \<open>loadImage\<close> is all-or-nothing: when its promise rejects it has dispatched nothing,
  and when it resolves it has dispatched at most one action.
\<close>

theorem load_all_or_nothing:
  "(case completion (loadImage env f) of
      Inl e \<Rightarrow> dispatched (loadImage env f) = []
    | Inr u \<Rightarrow> length (dispatched (loadImage env f)) \<le> 1)"
  by (simp add: loadImage_def resolved_def rejected_def Let_def split: sum.split)

text \<open>
  C6. Loading a GIF of two or more frames fails exactly when no 2D context is available or
  some frame's patch is not a well-formed RGBA buffer of the frame's size.
\<close>

theorem load_gif_error_iff:
  assumes "file_type f = ''image/gif''" "parse_gif env (file_bytes f) = Inr g"
    and "decompress_frames env g = Inr decoded" and "2 \<le> length decoded"
  shows "(\<exists>e. completion (loadImage env f) = Inl e) \<longleftrightarrow>
           \<not> context_available env \<or> (\<exists>fr\<in>set decoded. \<not> valid_patch fr)"
proof -
  have "(\<exists>e. completion (loadImage env f) = Inl e) \<longleftrightarrow> (\<exists>e. map_js (frame_canvas env g) decoded = Inl e)"
    using assms by (auto simp: load_image_gif resolved_def rejected_def split: sum.split)
  also have "\<dots> \<longleftrightarrow> (\<exists>fr\<in>set decoded. \<not> (context_available env \<and> valid_patch fr))"
    by (simp add: map_js_Inl_iff frame_canvas_Inl_iff)
  also have "\<dots> \<longleftrightarrow> \<not> context_available env \<or> (\<exists>fr\<in>set decoded. \<not> valid_patch fr)"
    using assms(4) by (cases decoded) auto
  finally show ?thesis .
qed

theorem load_gif_error_iff_witness:
  "\<exists>e. completion (loadImage
     \<lparr>create_object_url = \<lambda>_. ''blob:gif'', parse_gif = \<lambda>_. Inr \<lparr>lsd_width = 1, lsd_height = 1\<rparr>,
      decompress_frames = \<lambda>_. Inr [\<lparr>patch = [1, 1, 1, 1], dims = \<lparr>d_width = 1, d_height = 1, d_top = 0, d_left = 0\<rparr>, fr_delay = 40\<rparr>,
                                 \<lparr>patch = [2, 2], dims = \<lparr>d_width = 1, d_height = 1, d_top = 0, d_left = 0\<rparr>, fr_delay = 90\<rparr>],
      context_available = True\<rparr>
     \<lparr>file_type = ''image/gif'', file_bytes = []\<rparr>) = Inl e"
  using load_gif_error_iff [where f = "\<lparr>file_type = ''image/gif'', file_bytes = []\<rparr>"
      and g = "\<lparr>lsd_width = 1, lsd_height = 1\<rparr>"
      and decoded = "[\<lparr>patch = [1, 1, 1, 1], dims = \<lparr>d_width = 1, d_height = 1, d_top = 0, d_left = 0\<rparr>, fr_delay = 40\<rparr>,
                      \<lparr>patch = [2, 2], dims = \<lparr>d_width = 1, d_height = 1, d_top = 0, d_left = 0\<rparr>, fr_delay = 90\<rparr>]"]
  by (simp add: valid_patch_def numeral_2_eq_2)

text \<open>
  C5. A GIF that decodes to no frame is ignored (nothing dispatched, no error), and one that
  decodes to a single frame becomes a still image (\<open>setImage\<close>), never a sequence.
\<close>

theorem load_degenerate_gif:
  assumes "file_type f = ''image/gif''" "parse_gif env (file_bytes f) = Inr g"
    and "decompress_frames env g = Inr decoded" and "length decoded \<le> 1"
  shows "loadImage env f =
           resolved (if decoded = [] then [] else [SetImage (create_object_url env f)])"
  using assms by (cases decoded) (auto simp: load_image_gif)

theorem load_degenerate_gif_witness:
  "loadImage
     \<lparr>create_object_url = \<lambda>_. ''blob:gif'', parse_gif = \<lambda>_. Inr \<lparr>lsd_width = 1, lsd_height = 1\<rparr>,
      decompress_frames = \<lambda>_. Inr [\<lparr>patch = [1, 1, 1, 1], dims = \<lparr>d_width = 1, d_height = 1, d_top = 0, d_left = 0\<rparr>, fr_delay = 40\<rparr>],
      context_available = True\<rparr>
     \<lparr>file_type = ''image/gif'', file_bytes = []\<rparr> = resolved [SetImage ''blob:gif'']"
  using load_degenerate_gif [where f = "\<lparr>file_type = ''image/gif'', file_bytes = []\<rparr>"
      and g = "\<lparr>lsd_width = 1, lsd_height = 1\<rparr>"
      and decoded = "[\<lparr>patch = [1, 1, 1, 1], dims = \<lparr>d_width = 1, d_height = 1, d_top = 0, d_left = 0\<rparr>, fr_delay = 40\<rparr>]"]
  by simp

text \<open>
  C7. Every \<open>setGif\<close> that \<open>loadImage\<close> dispatches carries at least two frames, all of one
  size and each a well-formed bitmap.
\<close>

theorem load_frames_uniform:
  assumes "SetGif fs d \<in> set (dispatched (loadImage env f))"
  shows "2 \<le> length fs \<and> (\<exists>w h. \<forall>c\<in>set fs. cv_width c = w \<and> cv_height c = h \<and> canvas_wf c)"
  by (rule load_image_frames_shape [OF assms])

theorem load_frames_uniform_witness:
  "2 \<le> length [\<lparr>cv_width = 1, cv_height = 1, cv_data = [0, 0, 0, 0]\<rparr>, \<lparr>cv_width = 1, cv_height = 1, cv_data = [0, 0, 0, 0]\<rparr>] \<and>
   (\<exists>w h. \<forall>c\<in>set [\<lparr>cv_width = 1, cv_height = 1, cv_data = [0, 0, 0, 0]\<rparr>, \<lparr>cv_width = 1, cv_height = 1, cv_data = [0, 0, 0, 0]\<rparr>]. cv_width c = w \<and> cv_height c = h \<and> canvas_wf c)"
proof -
  let ?env = "\<lparr>create_object_url = \<lambda>_. ''blob:gif'', parse_gif = \<lambda>_. Inr \<lparr>lsd_width = 1, lsd_height = 1\<rparr>,
      decompress_frames = \<lambda>_. Inr [\<lparr>patch = [0, 0, 0, 0], dims = \<lparr>d_width = 1, d_height = 1, d_top = 0, d_left = 0\<rparr>, fr_delay = 40\<rparr>,
                                 \<lparr>patch = [0, 0, 0, 0], dims = \<lparr>d_width = 1, d_height = 1, d_top = 0, d_left = 0\<rparr>, fr_delay = 40\<rparr>],
      context_available = True\<rparr>"
  let ?f = "\<lparr>file_type = ''image/gif'', file_bytes = []\<rparr>"
  have "SetGif [\<lparr>cv_width = 1, cv_height = 1, cv_data = [0, 0, 0, 0]\<rparr>, \<lparr>cv_width = 1, cv_height = 1, cv_data = [0, 0, 0, 0]\<rparr>] 40 \<in> set (dispatched (loadImage ?env ?f))"
    by (simp add: loadImage_def frame_canvas_def new_image_data_def put_image_data_def
        patch_source_def create_canvas_def resolved_def upt_rec)
  then show ?thesis by (rule load_frames_uniform)
qed

text \<open>
  C8. When every patch covers the whole logical screen, the frame canvases equal the design's
  composited frames: the two decoders agree on full-frame GIFs.
\<close>

theorem full_frames_composite:
  assumes "context_available env"
    and "\<forall>fr\<in>set decoded. valid_patch fr \<and>
           dims fr = \<lparr>d_width = lsd_width g, d_height = lsd_height g, d_top = 0, d_left = 0\<rparr>"
  shows "map_js (frame_canvas env g) decoded =
           Inr (composite_frames (create_canvas (lsd_width g) (lsd_height g)) decoded)"
proof -
  let ?c = "create_canvas (lsd_width g) (lsd_height g)"
  have "map_js (frame_canvas env g) decoded = Inr (map (\<lambda>fr. ?c\<lparr>cv_data := patch fr\<rparr>) decoded)"
  proof (rule map_js_all_Inr)
    fix fr assume "fr \<in> set decoded"
    with assms have v: "valid_patch fr"
      and dm: "dims fr = \<lparr>d_width = lsd_width g, d_height = lsd_height g, d_top = 0, d_left = 0\<rparr>"
      by auto
    have "put_image_data ?c (frame_image fr) 0 0 = ?c\<lparr>cv_data := patch fr\<rparr>"
      using v dm by (simp add: put_full_cover valid_patch_def image_data_wf_def frame_image_def)
    with assms(1) v dm show "frame_canvas env g fr = Inr (?c\<lparr>cv_data := patch fr\<rparr>)"
      by (simp add: frame_canvas_Inr)
  qed
  also have "map (\<lambda>fr. ?c\<lparr>cv_data := patch fr\<rparr>) decoded = composite_frames ?c decoded"
    using assms(2) by (simp add: composite_full_frames)
  finally show ?thesis by simp
qed

theorem full_frames_composite_witness:
  "map_js (frame_canvas
     \<lparr>create_object_url = \<lambda>_. '''', parse_gif = \<lambda>_. Inl TypeError, decompress_frames = \<lambda>_. Inr [],
      context_available = True\<rparr> \<lparr>lsd_width = 1, lsd_height = 1\<rparr>)
     [\<lparr>patch = [1, 1, 1, 1], dims = \<lparr>d_width = 1, d_height = 1, d_top = 0, d_left = 0\<rparr>, fr_delay = 40\<rparr>,
      \<lparr>patch = [2, 2, 2, 2], dims = \<lparr>d_width = 1, d_height = 1, d_top = 0, d_left = 0\<rparr>, fr_delay = 40\<rparr>] =
   Inr (composite_frames (create_canvas 1 1)
     [\<lparr>patch = [1, 1, 1, 1], dims = \<lparr>d_width = 1, d_height = 1, d_top = 0, d_left = 0\<rparr>, fr_delay = 40\<rparr>,
      \<lparr>patch = [2, 2, 2, 2], dims = \<lparr>d_width = 1, d_height = 1, d_top = 0, d_left = 0\<rparr>, fr_delay = 40\<rparr>])"
proof -
  let ?env = "\<lparr>create_object_url = \<lambda>_. '''', parse_gif = \<lambda>_. Inl TypeError, decompress_frames = \<lambda>_. Inr [],
      context_available = True\<rparr>"
  let ?g = "\<lparr>lsd_width = 1, lsd_height = 1\<rparr> :: gif"
  let ?frs = "[\<lparr>patch = [1, 1, 1, 1], dims = \<lparr>d_width = 1, d_height = 1, d_top = 0, d_left = 0\<rparr>, fr_delay = 40\<rparr>,
      \<lparr>patch = [2, 2, 2, 2], dims = \<lparr>d_width = 1, d_height = 1, d_top = 0, d_left = 0\<rparr>, fr_delay = 40\<rparr>]
      :: parsed_frame list"
  have h1: "context_available ?env" by simp
  have h2: "\<forall>fr\<in>set ?frs. valid_patch fr \<and>
              dims fr = \<lparr>d_width = lsd_width ?g, d_height = lsd_height ?g, d_top = 0, d_left = 0\<rparr>"
    by (simp add: valid_patch_def)
  from full_frames_composite [OF h1 h2] show ?thesis by (simp only: gif.select_convs)
qed

text \<open>
  C9. A patch is never rejected for lying outside the logical screen: with a context and a
  well-formed patch the frame canvas is always built, at the screen's size, the excess
  clipped.
\<close>

theorem oversized_patch_accepted:
  assumes "context_available env" and "valid_patch fr"
  shows "\<exists>c. frame_canvas env g fr = Inr c \<and> cv_width c = lsd_width g \<and> cv_height c = lsd_height g"
  using assms by (simp add: frame_canvas_Inr)

theorem oversized_patch_accepted_witness:
  "\<exists>c. frame_canvas
     \<lparr>create_object_url = \<lambda>_. '''', parse_gif = \<lambda>_. Inl TypeError, decompress_frames = \<lambda>_. Inr [],
      context_available = True\<rparr> \<lparr>lsd_width = 1, lsd_height = 1\<rparr>
     \<lparr>patch = replicate 16 7, dims = \<lparr>d_width = 2, d_height = 2, d_top = 3, d_left = 0\<rparr>, fr_delay = 40\<rparr> = Inr c
   \<and> cv_width c = 1 \<and> cv_height c = 1"
  using oversized_patch_accepted [where g = "\<lparr>lsd_width = 1, lsd_height = 1\<rparr>"
      and fr = "\<lparr>patch = replicate 16 7, dims = \<lparr>d_width = 2, d_height = 2, d_top = 3, d_left = 0\<rparr>, fr_delay = 40\<rparr>"]
  by (simp add: valid_patch_def)

end
