(* ===== verification/CanvasView.thy ===== *)
theory CanvasView
  imports Load
begin

text \<open>
  The \<open>Canvas\<close> component of \<open>src/components/app/Canvas.tsx\<close>: the callback it registers
  with \<open>useAnimationFrame\<close> (lines 16--27), which decides once per display refresh
  whether to call \<open>drawFrame\<close> and then dispatches \<open>markClean\<close>, and the drop handler
  (lines 36--51), which picks the dropped file and hands image files to \<open>loadImage\<close>.
  Above them, the application as a sequence of events: actions dispatched by the controls,
  animation-frame callbacks and completed drops, each applied atomically to the world of
  theory Store.
\<close>

section \<open>The animation-frame callback\<close>

text \<open>
  A call of the external \<open>drawFrame(canvas, ctx, state, time)\<close>: the state it was given and
  the timestamp. The effects of one callback: the draw calls and the dispatched actions.
\<close>

record draw_call =
  dc_state :: state
  dc_time :: js_number

record frame_effects =
  draws :: "draw_call list"
  tick_dispatches :: "action list"

definition no_effects :: frame_effects where
  "no_effects = \<lparr>draws = [], tick_dispatches = []\<rparr>"

text \<open>
  The guards in the source's order: saving, no canvas attached (\<open>ref.current\<close> null),
  nothing owed and no animation, no 2D context. Otherwise \<open>drawFrame\<close> is called (its
  promise is discarded by \<open>void\<close>) and \<open>markClean\<close> dispatched at once.
\<close>

definition on_animation_frame :: "state \<Rightarrow> bool \<Rightarrow> bool \<Rightarrow> js_number \<Rightarrow> frame_effects" where
  "on_animation_frame s attached has_context time =
     (if saving s then no_effects
      else if \<not> attached then no_effects
      else if \<not> dirty s \<and> frames s = None then no_effects
      else if \<not> has_context then no_effects
      else \<lparr>draws = [\<lparr>dc_state = s, dc_time = time\<rparr>], tick_dispatches = [MarkClean]\<rparr>)"

section \<open>The drop handler\<close>

text \<open>
  A drop event's \<open>dataTransfer\<close>: \<open>items\<close>, when present, lists for each item what
  \<open>getAsFile()\<close> returns (\<open>null\<close> for a non-file item); \<open>files\<close> lists the files.
\<close>

record data_transfer =
  dt_items :: "js_file option list option"
  dt_files :: "js_file list"

text \<open>
  \<open>ev.dataTransfer.items ? ev.dataTransfer.items[0].getAsFile() : ev.dataTransfer.files[0]\<close>:
  indexing an empty item list gives \<open>undefined\<close>, and calling \<open>getAsFile\<close> on it throws a
  \<open>TypeError\<close>; indexing an empty file list gives \<open>undefined\<close>, a missing file.
\<close>

definition dropped_file :: "data_transfer \<Rightarrow> js_error + js_file option" where
  "dropped_file dt =
     (case dt_items dt of
        Some items \<Rightarrow> (case items of [] \<Rightarrow> Inl TypeError | it # _ \<Rightarrow> Inr it)
      | None \<Rightarrow> Inr (case dt_files dt of [] \<Rightarrow> None | f # _ \<Rightarrow> Some f))"

definition handle_drop :: "loader_env \<Rightarrow> data_transfer option \<Rightarrow> load_outcome" where
  "handle_drop env ev =
     (case ev of
        None \<Rightarrow> resolved []
      | Some dt \<Rightarrow>
          (case dropped_file dt of
             Inl e \<Rightarrow> rejected e
           | Inr None \<Rightarrow> resolved []
           | Inr (Some f) \<Rightarrow>
               if \<not> starts_with (file_type f) ''image/'' then resolved []
               else loadImage env f))"

section \<open>The application as a sequence of events\<close>

text \<open>
  An event is an action dispatched by a control, an animation-frame callback (whether the
  canvas is attached, whether it has a 2D context, the timestamp) or the completion of a
  drop (its handler run to its end). A drop's dispatches are applied when its
  \<open>loadImage\<close> completes, so two drops whose loads overlap complete in either order.
\<close>

datatype event =
    Dispatch action
  | AnimationFrame bool bool js_number
  | Drop "data_transfer option"

fun app_step :: "loader_env \<Rightarrow> world \<Rightarrow> event \<Rightarrow> js_error + world \<times> draw_call list" where
  "app_step env w (Dispatch a) = map_sum id (\<lambda>w'. (w', [])) (reducer w a)"
| "app_step env w (AnimationFrame att ctx t) =
     (let eff = on_animation_frame (st w) att ctx t
      in map_sum id (\<lambda>w'. (w', draws eff)) (dispatch_all w (tick_dispatches eff)))"
| "app_step env w (Drop ev) =
     map_sum id (\<lambda>w'. (w', [])) (dispatch_all w (dispatched (handle_drop env ev)))"

fun app_run :: "loader_env \<Rightarrow> world \<Rightarrow> event list \<Rightarrow> js_error + world \<times> draw_call list" where
  "app_run env w [] = Inr (w, [])"
| "app_run env w (e # es) =
     (case app_step env w e of
        Inl err \<Rightarrow> Inl err
      | Inr (w', ds) \<Rightarrow>
          (case app_run env w' es of
             Inl err \<Rightarrow> Inl err
           | Inr (w'', ds') \<Rightarrow> Inr (w'', ds @ ds')))"

fun is_tick :: "event \<Rightarrow> bool" where
  "is_tick (AnimationFrame _ _ _) = True"
| "is_tick _ = False"

section \<open>Lemmas\<close>

lemma dispatch_all_mark_clean [simp]:
  "dispatch_all w [MarkClean] = Inr (w\<lparr>st := (st w)\<lparr>dirty := False\<rparr>\<rparr>)"
  by simp

lemma app_step_tick [simp]:
  "app_step env w (AnimationFrame att ctx t) =
     (if \<not> saving (st w) \<and> att \<and> (dirty (st w) \<or> frames (st w) \<noteq> None) \<and> ctx
      then Inr (w\<lparr>st := (st w)\<lparr>dirty := False\<rparr>\<rparr>, [\<lparr>dc_state = st w, dc_time = t\<rparr>])
      else Inr (w, []))"
  by (auto simp: on_animation_frame_def no_effects_def)

declare app_step.simps(2) [simp del]

lemma app_run_Cons_Inr:
  "app_step env w e = Inr (w1, ds1) \<Longrightarrow>
     app_run env w (e # es) = map_sum id (\<lambda>(w2, ds2). (w2, ds1 @ ds2)) (app_run env w1 es)"
  by (simp split: sum.split prod.split)

lemma handle_drop_dispatched:
  "dispatched (handle_drop env ev) = [] \<or> (\<exists>f. dispatched (handle_drop env ev) = dispatched (loadImage env f))"
  by (auto simp: handle_drop_def resolved_def rejected_def split: option.split sum.split)

lemma drop_gif_length:
  assumes "dispatched (handle_drop env ev) = [SetGif fs d]"
  shows "2 \<le> length fs"
proof -
  obtain f where "dispatched (loadImage env f) = [SetGif fs d]"
    using handle_drop_dispatched [of env ev] assms by auto
  then obtain g decoded where "2 \<le> length decoded" "map_js (frame_canvas env g) decoded = Inr fs"
    using load_image_SetGif [of fs d env f] by auto
  then show ?thesis by (simp add: map_js_Inr_length)
qed

section \<open>Properties of the render loop and the drop handler\<close>

text \<open>
  C17. While an export is being saved no animation-frame callback draws or dispatches:
  any number of callbacks leave the world as it was.
\<close>

theorem saving_never_draws:
  assumes "saving (st w)" and "\<forall>e\<in>set es. is_tick e"
  shows "app_run env w es = Inr (w, [])"
  using assms(2)
proof (induction es)
  case Nil
  then show ?case by simp
next
  case (Cons e es)
  then obtain att ctx t where e: "e = AnimationFrame att ctx t" by (cases e) auto
  with assms(1) have "app_step env w e = Inr (w, [])" by simp
  with Cons show ?case by (simp add: app_run_Cons_Inr)
qed

theorem saving_never_draws_witness:
  "app_run \<lparr>create_object_url = \<lambda>_. '''', parse_gif = \<lambda>_. Inl TypeError, decompress_frames = \<lambda>_. Inr [],
            context_available = True\<rparr>
     \<lparr>st = (initialState True Map.empty)\<lparr>saving := True\<rparr>, storage = Map.empty, removed = []\<rparr>
     [AnimationFrame True True 16, AnimationFrame True True 33] =
   Inr (\<lparr>st = (initialState True Map.empty)\<lparr>saving := True\<rparr>, storage = Map.empty, removed = []\<rparr>, [])"
  by (rule saving_never_draws) simp_all

text \<open>
  C18. With nothing owed (not dirty) and no animation, animation-frame callbacks never call
  \<open>drawFrame\<close> and leave the world as it was, however many of them run.
\<close>

theorem idle_never_draws:
  assumes "\<not> dirty (st w)" and "frames (st w) = None" and "\<forall>e\<in>set es. is_tick e"
  shows "app_run env w es = Inr (w, [])"
  using assms(3)
proof (induction es)
  case Nil
  then show ?case by simp
next
  case (Cons e es)
  then obtain att ctx t where e: "e = AnimationFrame att ctx t" by (cases e) auto
  with assms(1,2) have "app_step env w e = Inr (w, [])" by simp
  with Cons show ?case by (simp add: app_run_Cons_Inr)
qed

theorem idle_never_draws_witness:
  "app_run \<lparr>create_object_url = \<lambda>_. '''', parse_gif = \<lambda>_. Inl TypeError, decompress_frames = \<lambda>_. Inr [],
            context_available = True\<rparr>
     \<lparr>st = (initialState True Map.empty)\<lparr>dirty := False\<rparr>, storage = Map.empty, removed = []\<rparr>
     [AnimationFrame True True 16, AnimationFrame True True 33] =
   Inr (\<lparr>st = (initialState True Map.empty)\<lparr>dirty := False\<rparr>, storage = Map.empty, removed = []\<rparr>, [])"
  by (rule idle_never_draws) (simp_all add: initialState_def)

text \<open>
  C19. Without an animation, a run of animation-frame callbacks redraws at most once per
  change: at most one draw when the state is dirty, none when it is clean.
\<close>

theorem at_most_one_redraw:
  assumes "frames (st w) = None" and "\<forall>e\<in>set es. is_tick e"
  shows "\<exists>w' ds. app_run env w es = Inr (w', ds) \<and> length ds \<le> (if dirty (st w) then 1 else 0)"
  using assms
proof (induction es arbitrary: w)
  case Nil
  then show ?case by simp
next
  case (Cons e es)
  then obtain att ctx t where e: "e = AnimationFrame att ctx t" by (cases e) auto
  show ?case
  proof (cases "\<not> saving (st w) \<and> att \<and> (dirty (st w) \<or> frames (st w) \<noteq> None) \<and> ctx")
    case True
    let ?w1 = "w\<lparr>st := (st w)\<lparr>dirty := False\<rparr>\<rparr>"
    have step: "app_step env w e = Inr (?w1, [\<lparr>dc_state = st w, dc_time = t\<rparr>])"
      using True e by simp
    from Cons.IH [of ?w1] Cons.prems obtain w' ds where
      "app_run env ?w1 es = Inr (w', ds)" "length ds \<le> 0" by auto
    with step True Cons.prems(1) show ?thesis by (simp add: app_run_Cons_Inr)
  next
    case False
    then have step: "app_step env w e = Inr (w, [])" using e by simp
    from Cons.IH [of w] Cons.prems obtain w' ds where
      "app_run env w es = Inr (w', ds)" "length ds \<le> (if dirty (st w) then 1 else 0)" by auto
    with step show ?thesis by (simp add: app_run_Cons_Inr)
  qed
qed

theorem at_most_one_redraw_witness:
  "\<exists>w' ds. app_run \<lparr>create_object_url = \<lambda>_. '''', parse_gif = \<lambda>_. Inl TypeError,
            decompress_frames = \<lambda>_. Inr [], context_available = True\<rparr>
     \<lparr>st = initialState True Map.empty, storage = Map.empty, removed = []\<rparr>
     [AnimationFrame True True 16, AnimationFrame True True 33, AnimationFrame True True 50] = Inr (w', ds) \<and>
     length ds \<le> 1"
  using at_most_one_redraw [where w = "\<lparr>st = initialState True Map.empty, storage = Map.empty, removed = []\<rparr>"
      and es = "[AnimationFrame True True 16, AnimationFrame True True 33, AnimationFrame True True 50]"
      and env = "\<lparr>create_object_url = \<lambda>_. '''', parse_gif = \<lambda>_. Inl TypeError,
            decompress_frames = \<lambda>_. Inr [], context_available = True\<rparr>"]
  by (simp add: initialState_def)

text \<open>
  C20. While an animation is held and nothing is being saved, every animation-frame
  callback on an attached canvas with a context draws, once, with its own timestamp.
\<close>

theorem animation_draws_every_tick:
  assumes "frames (st w) \<noteq> None" and "\<not> saving (st w)"
  shows "\<exists>w' ds. app_run env w (map (AnimationFrame True True) ts) = Inr (w', ds) \<and>
                 map dc_time ds = ts"
  using assms
proof (induction ts arbitrary: w)
  case Nil
  then show ?case by simp
next
  case (Cons t ts)
  let ?w1 = "w\<lparr>st := (st w)\<lparr>dirty := False\<rparr>\<rparr>"
  have step: "app_step env w (AnimationFrame True True t) = Inr (?w1, [\<lparr>dc_state = st w, dc_time = t\<rparr>])"
    using Cons.prems by simp
  from Cons.IH [of ?w1] Cons.prems obtain w' ds where
    "app_run env ?w1 (map (AnimationFrame True True) ts) = Inr (w', ds)" "map dc_time ds = ts"
    by auto
  with step show ?case by (simp add: app_run_Cons_Inr)
qed

theorem animation_draws_every_tick_witness:
  "\<exists>w' ds. app_run \<lparr>create_object_url = \<lambda>_. '''', parse_gif = \<lambda>_. Inl TypeError,
            decompress_frames = \<lambda>_. Inr [], context_available = True\<rparr>
     \<lparr>st = (initialState True Map.empty)\<lparr>dirty := False, frames := Some [create_canvas 1 1, create_canvas 1 1]\<rparr>,
      storage = Map.empty, removed = []\<rparr>
     (map (AnimationFrame True True) [16, 33, 50]) = Inr (w', ds) \<and> map dc_time ds = [16, 33, 50]"
  by (rule animation_draws_every_tick) (simp_all add: initialState_def)

text \<open>
  C21. A callback that finds no 2D context draws nothing and keeps the state dirty, so the
  next callback with a context draws the owed frame and only then clears the flag.
\<close>

theorem missing_context_retries:
  assumes "\<not> saving (st w)" and "dirty (st w)"
  shows "app_run env w [AnimationFrame True False t_fail, AnimationFrame True True t_ok] =
           Inr (w\<lparr>st := (st w)\<lparr>dirty := False\<rparr>\<rparr>, [\<lparr>dc_state = st w, dc_time = t_ok\<rparr>])"
  using assms by simp

theorem missing_context_retries_witness:
  "app_run \<lparr>create_object_url = \<lambda>_. '''', parse_gif = \<lambda>_. Inl TypeError, decompress_frames = \<lambda>_. Inr [],
            context_available = True\<rparr>
     \<lparr>st = initialState True Map.empty, storage = Map.empty, removed = []\<rparr>
     [AnimationFrame True False 16, AnimationFrame True True 33] =
   Inr (\<lparr>st = initialState True Map.empty, storage = Map.empty, removed = []\<rparr>
          \<lparr>st := (initialState True Map.empty)\<lparr>dirty := False\<rparr>\<rparr>,
        [\<lparr>dc_state = initialState True Map.empty, dc_time = 33\<rparr>])"
  using missing_context_retries [where w = "\<lparr>st = initialState True Map.empty, storage = Map.empty, removed = []\<rparr>"
      and t_fail = 16 and t_ok = 33]
  by (simp add: initialState_def)

text \<open>
  C22. A callback that draws passes \<open>drawFrame\<close> the state it read and clears the dirty flag
  in the same step, whatever the (unawaited) drawing does.
\<close>

theorem draw_then_mark_clean:
  assumes "app_step env w (AnimationFrame att ctx t) = Inr (w', ds)" and "ds \<noteq> []"
  shows "ds = [\<lparr>dc_state = st w, dc_time = t\<rparr>] \<and> w' = w\<lparr>st := (st w)\<lparr>dirty := False\<rparr>\<rparr>"
  using assms by (simp split: if_splits)

theorem draw_then_mark_clean_witness:
  "\<not> dirty (st (fst (projr (app_step \<lparr>create_object_url = \<lambda>_. '''', parse_gif = \<lambda>_. Inl TypeError,
            decompress_frames = \<lambda>_. Inr [], context_available = True\<rparr>
     \<lparr>st = initialState True Map.empty, storage = Map.empty, removed = []\<rparr> (AnimationFrame True True 16)))))"
proof -
  let ?env = "\<lparr>create_object_url = \<lambda>_. '''', parse_gif = \<lambda>_. Inl TypeError,
            decompress_frames = \<lambda>_. Inr [], context_available = True\<rparr>"
  let ?w = "\<lparr>st = initialState True Map.empty, storage = Map.empty, removed = []\<rparr>"
  let ?r = "app_step ?env ?w (AnimationFrame True True 16)"
  have r: "?r = Inr (fst (projr ?r), snd (projr ?r))" by (simp add: initialState_def)
  have ne: "snd (projr ?r) \<noteq> []" by (simp add: initialState_def)
  show ?thesis using draw_then_mark_clean [OF r ne] by simp
qed

text \<open>
  C23. Dropping a file whose type does not start with \<open>image/\<close> changes nothing.
\<close>

theorem drop_non_image_ignored:
  assumes "dropped_file dt = Inr (Some f)" and "\<not> starts_with (file_type f) ''image/''"
  shows "app_step env w (Drop (Some dt)) = Inr (w, [])"
  using assms by (simp add: handle_drop_def resolved_def)

theorem drop_non_image_ignored_witness:
  "app_step \<lparr>create_object_url = \<lambda>_. '''', parse_gif = \<lambda>_. Inl TypeError, decompress_frames = \<lambda>_. Inr [],
            context_available = True\<rparr>
     \<lparr>st = initialState True Map.empty, storage = Map.empty, removed = []\<rparr>
     (Drop (Some \<lparr>dt_items = Some [Some \<lparr>file_type = ''text/plain'', file_bytes = []\<rparr>], dt_files = []\<rparr>)) =
   Inr (\<lparr>st = initialState True Map.empty, storage = Map.empty, removed = []\<rparr>, [])"
  by (rule drop_non_image_ignored [where f = "\<lparr>file_type = ''text/plain'', file_bytes = []\<rparr>"])
     (simp_all add: dropped_file_def starts_with_def)

text \<open>
  C24. A drop whose item list is empty makes the handler throw a \<open>TypeError\<close> (reading
  \<open>getAsFile\<close> of \<open>items[0]\<close>, which is \<open>undefined\<close>); the world is left unchanged.
\<close>

theorem drop_empty_items_throws:
  assumes "dt_items dt = Some []"
  shows "handle_drop env (Some dt) = rejected TypeError \<and> app_step env w (Drop (Some dt)) = Inr (w, [])"
  using assms by (simp add: handle_drop_def dropped_file_def rejected_def)

theorem drop_empty_items_throws_witness:
  "handle_drop \<lparr>create_object_url = \<lambda>_. '''', parse_gif = \<lambda>_. Inl TypeError, decompress_frames = \<lambda>_. Inr [],
            context_available = True\<rparr> (Some \<lparr>dt_items = Some [], dt_files = []\<rparr>) = rejected TypeError"
  using drop_empty_items_throws [where dt = "\<lparr>dt_items = Some [], dt_files = []\<rparr>"] by simp

text \<open>
  C31. A redraw owed when an export starts is not lost: callbacks during the export draw
  nothing, and the first callback after \<open>setSaving(false)\<close> draws the state once and marks
  it clean.
\<close>

theorem save_defers_redraw:
  assumes "dirty (st w)" and "\<not> saving (st w)"
  shows "app_run env w [Dispatch (SetSaving True), AnimationFrame True True t1,
                        Dispatch (SetSaving False), AnimationFrame True True t2] =
           Inr (w\<lparr>st := (st w)\<lparr>dirty := False\<rparr>\<rparr>, [\<lparr>dc_state = st w, dc_time = t2\<rparr>])"
  using assms by (simp add: app_run_Cons_Inr)

theorem save_defers_redraw_witness:
  "app_run \<lparr>create_object_url = \<lambda>_. '''', parse_gif = \<lambda>_. Inl TypeError, decompress_frames = \<lambda>_. Inr [],
            context_available = True\<rparr>
     \<lparr>st = initialState True Map.empty, storage = Map.empty, removed = []\<rparr>
     [Dispatch (SetSaving True), AnimationFrame True True 16,
      Dispatch (SetSaving False), AnimationFrame True True 33] =
   Inr (\<lparr>st = (initialState True Map.empty)\<lparr>dirty := False\<rparr>, storage = Map.empty, removed = []\<rparr>,
        [\<lparr>dc_state = initialState True Map.empty, dc_time = 33\<rparr>])"
  using save_defers_redraw [where w = "\<lparr>st = initialState True Map.empty, storage = Map.empty, removed = []\<rparr>"]
  by (simp add: initialState_def)

end
