(* ===== verification/View.thy ===== *)
theory View
  imports CanvasView
begin

text \<open>
  The \<open><canvas>\<close> element that the \<open>Canvas\<close> component of
  \<open>src/components/app/Canvas.tsx\<close> renders (lines 53--67): its \<open>width\<close> and \<open>height\<close> are
  \<open>qualityToResolution(state.quality)\<close>, memoised on \<open>state.quality\<close>, and, as the HTML
  specification says, giving either attribute a new value clears the bitmap. The bitmap
  shows the state of the last \<open>drawFrame\<close> call since the last clear. Above the element,
  the application with its canvas: every event, then React's commit of the element's
  attributes for the state the event left.
\<close>

section \<open>The canvas element\<close>

text \<open>
  The element as the page holds it: the resolution its attributes carry and the state the
  bitmap was last painted with (\<open>None\<close>: transparent since the last clear).
\<close>

record screen =
  sc_res :: nat
  sc_painted :: "state option"

text \<open>
  \<open>useMemo(() => qualityToResolution(state.quality), [state.quality])\<close>: the mapping itself
  is imported from \<open>~lib/quality\<close>, which is not among the sources, and is a parameter.
\<close>

definition canvas_resolution :: "(js_number \<Rightarrow> nat) \<Rightarrow> state \<Rightarrow> nat" where
  "canvas_resolution quality_to_resolution s = quality_to_resolution (quality s)"

text \<open>The element as first mounted: the attributes of the initial state and an empty bitmap.\<close>

definition mount :: "(js_number \<Rightarrow> nat) \<Rightarrow> state \<Rightarrow> screen" where
  "mount q2r s = \<lparr>sc_res = canvas_resolution q2r s, sc_painted = None\<rparr>"

text \<open>
  React's commit of \<open><canvas width={resolution} height={resolution}>\<close>: the attributes
  are written only when the value differs from the one the element has, and writing them
  clears the bitmap.
\<close>

definition commit :: "(js_number \<Rightarrow> nat) \<Rightarrow> state \<Rightarrow> screen \<Rightarrow> screen" where
  "commit q2r s sc =
     (if canvas_resolution q2r s \<noteq> sc_res sc
      then \<lparr>sc_res = canvas_resolution q2r s, sc_painted = None\<rparr> else sc)"

text \<open>The draw calls of an event paint the bitmap; the last one is what it shows.\<close>

definition paint :: "draw_call list \<Rightarrow> screen \<Rightarrow> screen" where
  "paint ds sc = (if ds = [] then sc else sc\<lparr>sc_painted := Some (dc_state (last ds))\<rparr>)"

text \<open>
  What \<open>drawFrame\<close> is given of the state that the design calls the parameters and the
  source: quality, padding, angle, flag, the still image and the animation with its delay.
\<close>

definition visible :: "state \<Rightarrow> js_number \<times> js_number \<times> js_number \<times> flag_name \<times>
                                 image_el option \<times> canvas list option \<times> js_number" where
  "visible s = (quality s, padding s, angle s, flag s, image s, frames s, delay s)"

section \<open>The application with its canvas\<close>

definition view_step :: "loader_env \<Rightarrow> (js_number \<Rightarrow> nat) \<Rightarrow> world \<Rightarrow> screen \<Rightarrow> event \<Rightarrow>
                         js_error + world \<times> screen" where
  "view_step env q2r w sc e =
     (case app_step env w e of
        Inl err \<Rightarrow> Inl err
      | Inr (w', ds) \<Rightarrow> Inr (w', commit q2r (st w') (paint ds sc)))"

text \<open>
  The events of the page: the controls dispatch any action but \<open>setGif\<close>, which only
  \<open>loadImage\<close> dispatches, and \<open>markClean\<close>, which only the animation-frame callback
  dispatches (\<open>Canvas.tsx\<close> line 26, its one dispatcher among the sources).
\<close>

fun control_event :: "event \<Rightarrow> bool" where
  "control_event (Dispatch (SetGif _ _)) = False"
| "control_event (Dispatch MarkClean) = False"
| "control_event _ = True"

inductive view_reachable :: "loader_env \<Rightarrow> (js_number \<Rightarrow> nat) \<Rightarrow> world \<Rightarrow> screen \<Rightarrow> bool"
  for env q2r where
  start: "view_reachable env q2r \<lparr>st = initialState True m, storage = m, removed = []\<rparr>
            (mount q2r (initialState True m))"
| step: "view_reachable env q2r w sc \<Longrightarrow> control_event e \<Longrightarrow> view_step env q2r w sc e = Inr (w', sc') \<Longrightarrow>
           view_reachable env q2r w' sc'"

text \<open>
  The invariant of the page: the attributes match the current quality, and unless a
  redraw is owed (the state is dirty or animating) the bitmap shows the current
  parameters and source.
\<close>

definition view_inv :: "(js_number \<Rightarrow> nat) \<Rightarrow> world \<Rightarrow> screen \<Rightarrow> bool" where
  "view_inv q2r w sc \<longleftrightarrow>
     sc_res sc = canvas_resolution q2r (st w) \<and>
     (dirty (st w) \<or> frames (st w) \<noteq> None \<or>
      (\<exists>s. sc_painted sc = Some s \<and> visible s = visible (st w)))"

section \<open>Dragging a file onto the canvas\<close>

text \<open>
  The element's \<open>onDragOver\<close> and \<open>onDrop\<close> (lines 64--65). \<open>handleDragOver\<close> (lines
  29--34) cancels every \<open>dragover\<close> event; \<open>handleDrop\<close> cancels the \<open>drop\<close> event first
  thing (line 38), before it looks at \<open>dataTransfer\<close>, and then runs as \<open>handle_drop\<close>.
\<close>

definition handle_drag_over :: "data_transfer option \<Rightarrow> bool" where
  "handle_drag_over ev = True"

definition canvas_on_drop :: "loader_env \<Rightarrow> data_transfer option \<Rightarrow> bool \<times> load_outcome" where
  "canvas_on_drop env ev = (True, handle_drop env ev)"

text \<open>
  What the HTML drag-and-drop processing model makes of a file released over the element:
  when the last \<open>dragover\<close> was not cancelled the drag operation is \<open>none\<close> and no
  \<open>drop\<close> event fires; when the \<open>drop\<close> event is not cancelled the browser performs its
  default action (for a file, opening it in place of the page). Otherwise the page handles
  the drop. The written model also asks for a cancelled \<open>dragenter\<close>, which the code does
  not register; browsers decide on \<open>dragover\<close> alone, and that is what is modelled here.
\<close>

datatype drop_result = PageHandles load_outcome | BrowserDefault

definition drop_gesture :: "loader_env \<Rightarrow> data_transfer option \<Rightarrow> drop_result" where
  "drop_gesture env ev =
     (if \<not> handle_drag_over ev then BrowserDefault
      else (case canvas_on_drop env ev of
              (prevented, outcome) \<Rightarrow> if prevented then PageHandles outcome else BrowserDefault))"

section \<open>Lemmas\<close>

lemma commit_same [simp]:
  "canvas_resolution q2r s = sc_res sc \<Longrightarrow> commit q2r s sc = sc"
  by (simp add: commit_def)

lemma commit_res [simp]: "sc_res (commit q2r s sc) = canvas_resolution q2r s"
  by (simp add: commit_def)

lemma view_step_Inr:
  "view_step env q2r w sc e = Inr (w', sc') \<longleftrightarrow>
     (\<exists>ds. app_step env w e = Inr (w', ds) \<and> sc' = commit q2r (st w') (paint ds sc))"
  by (auto simp: view_step_def split: sum.splits)

lemma reducer_view_inv:
  assumes "view_inv q2r w sc" "reducer w a = Inr w'" "a \<noteq> MarkClean"
  shows "view_inv q2r w' (commit q2r (st w') sc)"
  using assms(2)
proof (rule reducer_InrE)
qed (use assms(1,3) in \<open>auto simp: view_inv_def visible_def canvas_resolution_def commit_def
                                 release_def Let_def\<close>)

lemma tick_view_inv:
  assumes "view_inv q2r w sc" "app_step env w (AnimationFrame att ctx t) = Inr (w', ds)"
  shows "view_inv q2r w' (commit q2r (st w') (paint ds sc))"
  using assms by (auto simp: view_inv_def paint_def canvas_resolution_def visible_def split: if_splits)

lemma drop_view_inv:
  assumes "view_inv q2r w sc" "app_step env w (Drop ev) = Inr (w', ds)"
  shows "view_inv q2r w' (commit q2r (st w') (paint ds sc))"
proof -
  have r: "dispatch_all w (dispatched (handle_drop env ev)) = Inr w'" and ds: "ds = []"
    using assms(2) by (cases "dispatch_all w (dispatched (handle_drop env ev))"; auto)+
  consider "dispatched (handle_drop env ev) = []"
    | u where "dispatched (handle_drop env ev) = [SetImage u]"
    | fs d where "dispatched (handle_drop env ev) = [SetGif fs d]"
    using handle_drop_dispatched [of env ev] load_image_dispatched by metis
  then show ?thesis
  proof cases
    case 1 with r ds assms(1) show ?thesis by (simp add: paint_def view_inv_def)
  next
    case (2 u) with r ds assms(1) show ?thesis
      by (auto simp: paint_def view_inv_def canvas_resolution_def release_def Let_def)
  next
    case (3 fs d) with r ds assms(1) show ?thesis
      by (auto simp: paint_def view_inv_def canvas_resolution_def release_def Let_def)
  qed
qed

lemma view_step_inv:
  assumes "view_inv q2r w sc" "control_event e" "view_step env q2r w sc e = Inr (w', sc')"
  shows "view_inv q2r w' sc'"
proof -
  from assms(3) obtain ds where a: "app_step env w e = Inr (w', ds)"
    and sc': "sc' = commit q2r (st w') (paint ds sc)"
    by (auto simp: view_step_Inr)
  show ?thesis
  proof (cases e)
    case (Dispatch a')
    with a assms(2) have "reducer w a' = Inr w'" "ds = []" "a' \<noteq> MarkClean"
      by (auto elim: control_event.elims)
    with reducer_view_inv [OF assms(1)] sc' show ?thesis by (simp add: paint_def)
  next
    case (AnimationFrame att ctx t)
    with tick_view_inv [OF assms(1)] a sc' show ?thesis by simp
  next
    case (Drop ev)
    with drop_view_inv [OF assms(1)] a sc' show ?thesis by simp
  qed
qed

lemma view_reachable_inv: "view_reachable env q2r w sc \<Longrightarrow> view_inv q2r w sc"
proof (induction rule: view_reachable.induct)
  case (start m)
  then show ?case by (simp add: view_inv_def mount_def initialState_def)
next
  case (step w sc e w' sc')
  then show ?case using view_step_inv by blast
qed

section \<open>Properties of the page\<close>

text \<open>
  C34. In every reachable page, whenever no redraw is owed (the state is clean and holds
  no animation), the canvas carries the resolution of the current quality and shows the
  current parameters and source: a resolution change that clears the bitmap always comes
  with a redraw owed.
\<close>

theorem view_clean_shows_current:
  assumes "view_reachable env q2r w sc" and "\<not> dirty (st w)" and "frames (st w) = None"
  shows "sc_res sc = q2r (quality (st w)) \<and> (\<exists>s. sc_painted sc = Some s \<and> visible s = visible (st w))"
  using view_reachable_inv [OF assms(1)] assms(2,3) by (simp add: view_inv_def canvas_resolution_def)

theorem view_clean_shows_current_witness:
  "sc_res (snd (projr (view_step
      \<lparr>create_object_url = \<lambda>_. '''', parse_gif = \<lambda>_. Inl TypeError, decompress_frames = \<lambda>_. Inr [],
       context_available = True\<rparr> (\<lambda>q. nat \<lceil>100 * q\<rceil>)
      \<lparr>st = initialState True Map.empty, storage = Map.empty, removed = []\<rparr>
      (mount (\<lambda>q. nat \<lceil>100 * q\<rceil>) (initialState True Map.empty)) (AnimationFrame True True 16)))) = 300"
proof -
  let ?E = "\<lparr>create_object_url = \<lambda>_. '''', parse_gif = \<lambda>_. Inl TypeError, decompress_frames = \<lambda>_. Inr [],
       context_available = True\<rparr>"
  let ?Q = "\<lambda>q::js_number. nat \<lceil>100 * q\<rceil>"
  let ?w0 = "\<lparr>st = initialState True Map.empty, storage = Map.empty, removed = []\<rparr>"
  obtain w1 sc1 where s: "view_step ?E ?Q ?w0 (mount ?Q (initialState True Map.empty)) (AnimationFrame True True 16)
                          = Inr (w1, sc1)"
    by (simp add: view_step_def initialState_def)
  have r: "view_reachable ?E ?Q w1 sc1"
    by (rule view_reachable.step [OF view_reachable.start _ s]) simp
  have c: "\<not> dirty (st w1)" "frames (st w1) = None"
    using s by (auto simp: view_step_def initialState_def)
  have q: "quality (st w1) = 3"
    using s by (auto simp: view_step_def initialState_def)
  show ?thesis using view_clean_shows_current [OF r c] s q by simp
qed

text \<open>
  C35. After every animation-frame callback with the canvas attached and a 2D context, while
  no export is being saved, the canvas shows the current parameters and source.
\<close>

theorem tick_shows_current:
  assumes "view_reachable env q2r w sc" and "\<not> saving (st w)"
    and "view_step env q2r w sc (AnimationFrame True True t) = Inr (w', sc')"
  shows "\<exists>s. sc_painted sc' = Some s \<and> visible s = visible (st w')"
proof -
  have i: "view_inv q2r w sc" by (rule view_reachable_inv [OF assms(1)])
  from assms(3) obtain ds where a: "app_step env w (AnimationFrame True True t) = Inr (w', ds)"
    and sc': "sc' = commit q2r (st w') (paint ds sc)"
    by (auto simp: view_step_Inr)
  show ?thesis
  proof (cases "dirty (st w) \<or> frames (st w) \<noteq> None")
    case True
    with a assms(2) i sc' show ?thesis
      by (auto simp: paint_def view_inv_def canvas_resolution_def visible_def)
  next
    case False
    with a i sc' show ?thesis by (auto simp: view_inv_def paint_def)
  qed
qed

theorem tick_shows_current_witness:
  "\<exists>s. sc_painted (snd (projr (view_step
      \<lparr>create_object_url = \<lambda>_. '''', parse_gif = \<lambda>_. Inl TypeError, decompress_frames = \<lambda>_. Inr [],
       context_available = True\<rparr> (\<lambda>q. nat \<lceil>100 * q\<rceil>)
      \<lparr>st = initialState True Map.empty, storage = Map.empty, removed = []\<rparr>
      (mount (\<lambda>q. nat \<lceil>100 * q\<rceil>) (initialState True Map.empty)) (AnimationFrame True True 16)))) = Some s \<and>
      visible s = visible (initialState True Map.empty)"
proof -
  let ?E = "\<lparr>create_object_url = \<lambda>_. '''', parse_gif = \<lambda>_. Inl TypeError, decompress_frames = \<lambda>_. Inr [],
       context_available = True\<rparr>"
  let ?Q = "\<lambda>q::js_number. nat \<lceil>100 * q\<rceil>"
  let ?w0 = "\<lparr>st = initialState True Map.empty, storage = Map.empty, removed = []\<rparr>"
  obtain w1 sc1 where s: "view_step ?E ?Q ?w0 (mount ?Q (initialState True Map.empty)) (AnimationFrame True True 16)
                          = Inr (w1, sc1)"
    by (simp add: view_step_def initialState_def)
  have v: "visible (st w1) = visible (initialState True Map.empty)"
    using s by (auto simp: view_step_def initialState_def visible_def)
  have "\<not> saving (st ?w0)" by (simp add: initialState_def)
  from tick_shows_current [OF view_reachable.start this s] s v show ?thesis by simp
qed

text \<open>
  C36. Every file dragged onto the canvas and released there is handled by the page, never
  by the browser's default of opening the file in place of the page: whatever the
  transfer holds (no file, a non-image, an empty item list), nothing is dispatched unless
  the dropped file is an image, and then the outcome is \<open>loadImage\<close>'s on that file.
\<close>

theorem drop_gesture_handled:
  "\<exists>out. drop_gesture env ev = PageHandles out \<and>
     (dispatched out = [] \<or> (\<exists>f. starts_with (file_type f) ''image/'' \<and> out = loadImage env f))"
  by (auto simp: drop_gesture_def handle_drag_over_def canvas_on_drop_def handle_drop_def
        resolved_def rejected_def split: option.split sum.split)

end
