(* ===== verification/StoreContext.thy ===== *)
theory StoreContext
  imports CanvasView
begin

text \<open>
  The React context of \<open>src/components/app/Store.tsx\<close> through which components reach the
  store: the \<open>Context\<close> interface (lines 38--41), the context's default value, created at
  module load with \<open>initialState\<close> and no \<open>dispatch\<close> (line 44, the missing field
  silenced by \<open>@ts-expect-error\<close>), and the value the \<open>Provider\<close> hands down: the live state
  of \<open>useReducer\<close> and its \<open>dispatch\<close> (lines 59--61 and 122--127). A component reads
  the context (\<open>useStore\<close>, not among the sources, is taken to be \<open>useContext(store)\<close>):
  the Provider's value under a Provider, the default value elsewhere.
\<close>

section \<open>Context values\<close>

text \<open>
  A context value: the state it carries and whether its \<open>dispatch\<close> field holds the
  Provider's dispatch function (\<open>True\<close>) or is missing (\<open>False\<close>, read as \<open>undefined\<close>).
\<close>

record context_value =
  ctx_state :: state
  ctx_has_dispatch :: bool

text \<open>
  \<open>createContext<Context>({ state: initialState })\<close>, evaluated once when the module loads,
  with \<open>localStorage\<close> as it is then.
\<close>

definition default_context :: "(string \<rightharpoonup> string) \<Rightarrow> context_value" where
  "default_context m = \<lparr>ctx_state = initialState True m, ctx_has_dispatch = False\<rparr>"

text \<open>
  The Provider: \<open>useReducer(reducer, initialState)\<close> holds the world, and the value is
  \<open>{ state, dispatch }\<close>.
\<close>

definition provider_value :: "world \<Rightarrow> context_value" where
  "provider_value w = \<lparr>ctx_state = st w, ctx_has_dispatch = True\<rparr>"

definition use_store :: "bool \<Rightarrow> (string \<rightharpoonup> string) \<Rightarrow> world \<Rightarrow> context_value" where
  "use_store under_provider m w = (if under_provider then provider_value w else default_context m)"

text \<open>
  A consumer's call \<open>dispatch(action)\<close>: the Provider's dispatch runs the reducer on the
  world; calling the missing field throws a \<open>TypeError\<close> (\<open>dispatch is not a function\<close>).
\<close>

definition call_dispatch :: "context_value \<Rightarrow> world \<Rightarrow> action \<Rightarrow> js_error + world" where
  "call_dispatch ctx w a = (if ctx_has_dispatch ctx then reducer w a else Inl TypeError)"

fun dispatch_via :: "context_value \<Rightarrow> world \<Rightarrow> action list \<Rightarrow> js_error + world" where
  "dispatch_via ctx w [] = Inr w"
| "dispatch_via ctx w (a # as) =
     (case call_dispatch ctx w a of Inl e \<Rightarrow> Inl e | Inr w' \<Rightarrow> dispatch_via ctx w' as)"

text \<open>
  The animation-frame callback of a \<open>Canvas\<close> reading a context value: \<open>drawFrame\<close> is
  called before \<open>markClean\<close> is dispatched, so its draw calls happen whether or not the
  dispatch then throws.
\<close>

definition context_tick :: "context_value \<Rightarrow> world \<Rightarrow> bool \<Rightarrow> bool \<Rightarrow> js_number \<Rightarrow>
                            draw_call list \<times> (js_error + world)" where
  "context_tick ctx w att has_ctx t =
     (let eff = on_animation_frame (ctx_state ctx) att has_ctx t
      in (draws eff, dispatch_via ctx w (tick_dispatches eff)))"

section \<open>Lemmas\<close>

lemma dispatch_via_provider:
  "dispatch_via (provider_value w0) w as = dispatch_all w as"
  by (induction as arbitrary: w) (simp_all add: call_dispatch_def provider_value_def split: sum.split)

end
