(* ===== verification/Button.thy ===== *)
theory Button
  imports Prelude
begin

text \<open>
  The \<open>Button\<close> component of \<open>src/components/input/Button.tsx\<close>: its click handler calls
  the \<open>onClick\<close> prop only when the prop is a function (\<open>typeof onClick === 'function'\<close>).
  A prop is a JavaScript value that is a function or not; the function's effect is a
  transformation of whatever state the caller threads through.
\<close>

datatype 'f js_value = JsFunction 'f | JsNonFunction

definition handle_click :: "('s \<Rightarrow> 's) js_value \<Rightarrow> 's \<Rightarrow> 's" where
  "handle_click on_click s = (case on_click of JsFunction f \<Rightarrow> f s | JsNonFunction \<Rightarrow> s)"

end
