(* ===== verification/Spec2Isabelle.thy ===== *)
theory Spec2Isabelle
  imports View StoreContext Button
begin

text \<open>
  \<^bold>\<open>pride-icons, verified.\<close> The program (lolPants/pride-icons) is a React page that
  draws a pride-flag motif around a dropped still image or animated GIF and redraws it on
  every display refresh while something changed. This development models the parts of it
  under \<^verbatim>\<open>src/\<close> that carry state and decisions, and proves what makes them correct.

  \<^bold>\<open>Parts and how they interact.\<close> A drop on the canvas (\<^verbatim>\<open>Canvas.tsx\<close>, handleDrop)
  hands an image file to \<^verbatim>\<open>loadImage\<close> (\<^verbatim>\<open>src/lib/load.ts\<close>), which dispatches
  \<^verbatim>\<open>setImage\<close> or, for a GIF of two or more frames, \<^verbatim>\<open>setGif\<close> with one canvas per frame.
  The store (\<^verbatim>\<open>src/components/app/Store.tsx\<close>) applies actions with its reducer and
  sets the dirty flag; the canvas's animation-frame callback (\<^verbatim>\<open>Canvas.tsx\<close>) calls the
  external \<^verbatim>\<open>drawFrame\<close> when the state is dirty or an animation is held and then
  dispatches \<^verbatim>\<open>markClean\<close>. The controls dispatch the parameter actions. The
  components reach the store through its React context, whose Provider hands down the
  live state and \<^verbatim>\<open>dispatch\<close>. The canvas element's resolution follows the quality, and
  a change of it clears the bitmap.

  \<^bold>\<open>Theories.\<close>
  \<^item> Prelude: model types (\<open>js_number\<close> as real, bytes as \<open>8 word\<close>, \<open>js_error\<close>),
    \<open>map_js\<close> (\<^verbatim>\<open>Array.prototype.map\<close> with a throwing callback), \<open>starts_with\<close>,
    RGBA index arithmetic.
  \<^item> Raster: the canvas operations \<^verbatim>\<open>load.ts\<close> performs (creating a canvas, the
    \<^verbatim>\<open>ImageData\<close> constructor's checks, \<^verbatim>\<open>putImageData\<close>'s clipped copy) on row-major
    RGBA byte buffers, as the HTML canvas specification defines them.
  \<^item> Store: \<open>state\<close> (the \<^verbatim>\<open>State\<close> interface),
    \<open>action\<close>, \<open>initialState\<close>, \<open>reducer\<close> over a \<open>world\<close> that adds
    \<^verbatim>\<open>localStorage\<close> and the log of \<^verbatim>\<open>remove()\<close> calls; the design's abstract state and
    transition table (\<open>app_state\<close>, \<open>spec_step\<close>) with the abstraction \<open>abs_state\<close>.
    Proved: the dirty flag after every action (C10), the state invariant (C11), refinement
    of the transition table (C12), angle snapping (C13), release order (C14), rejection of
    unknown actions (C15), persistence of the advert flag across sessions (C16), the state
    staying clean until a mutating action (C28), the release order of the other direction
    (C29), the effects outside the state: storage and DOM removals (C30), and the advert
    flag carried across sessions through \<^verbatim>\<open>localStorage\<close> (C33).
  \<^item> Load: \<open>frame_canvas\<close> (the \<^verbatim>\<open>decoded.map\<close> callback) and \<open>loadImage\<close>, with the library calls
    (\<^verbatim>\<open>URL.createObjectURL\<close>, \<^verbatim>\<open>parseGIF\<close>, \<^verbatim>\<open>decompressFrames\<close>) and the availability of a
    2D context as the \<open>loader_env\<close>; the design's compositing decoder as the reference
    \<open>composite_frames\<close>. Proved: the pixels of each frame (C1), the divergence from the
    design's compositing (C2) and the agreement on full-frame GIFs (C8), the n-frame,
    0/1-frame and error branches (C3, C5, C6), all-or-nothing dispatch (C4), uniform frame
    sizes (C7), acceptance of out-of-screen patches (C9).
  \<^item> CanvasView: \<open>on_animation_frame\<close> (the \<^verbatim>\<open>useAnimationFrame\<close> callback),
    \<open>dropped_file\<close> and \<open>handle_drop\<close> (handleDrop), and the application as a run of
    events (\<open>app_step\<close>, \<open>app_run\<close>). Proved: no drawing while saving (C17) or while idle
    (C18), at most one redraw per change (C19), one draw per frame while animating (C20),
    retry after a missing context (C21), \<^verbatim>\<open>markClean\<close> right after every draw (C22),
    non-image drops ignored (C23), the \<^verbatim>\<open>TypeError\<close> on an empty item list (C24), a redraw
    owed across an export drawn once afterwards (C31).
  \<^item> Button: \<open>handle_click\<close> of \<^verbatim>\<open>src/components/input/Button.tsx\<close>.
  \<^item> View: the \<^verbatim>\<open><canvas>\<close> element \<^verbatim>\<open>Canvas\<close> renders (lines 53--67): its
    resolution attributes (\<open>canvas_resolution\<close>, with \<^verbatim>\<open>qualityToResolution\<close> a parameter),
    React's commit of them, which clears the bitmap when they change (\<open>commit\<close>), the
    bitmap as the state last painted (\<open>screen\<close>, \<open>paint\<close>), the page as events followed by
    the commit (\<open>view_step\<close>, \<open>view_reachable\<close>), and the drag-and-drop handlers with the
    HTML processing model (\<open>handle_drag_over\<close>, \<open>canvas_on_drop\<close>, \<open>drop_gesture\<close>).
    Proved: whenever no redraw is owed the canvas has the current resolution and shows the
    current parameters (C34), after every tick outside an export it shows them (C35), and
    every drop is handled by the page, only image files reaching \<^verbatim>\<open>loadImage\<close> (C36).
  \<^item> StoreContext: the store's React context (\<open>default_context\<close>, \<open>provider_value\<close>,
    \<open>call_dispatch\<close>) and the animation-frame callback reading it (\<open>context_tick\<close>).
    Under the Provider the callback is the one of the application model
    (\<open>dispatch_via_provider\<close>); outside it, it draws the module-load initial state and
    then throws a \<^verbatim>\<open>TypeError\<close> on \<^verbatim>\<open>dispatch\<close>, a finding recorded in the manifest.
  \<^item> This theory: the reachable states of the whole application (\<open>reachable\<close>, from
    \<open>initial_world\<close> by events the UI can produce) and the properties across parts: the
    application invariant (C25), drop-to-draw end to end (C26), last completion wins
    between overlapping drops (C27), and every completed drop refines the design's
    decode-then-transition data flow (C32).

  \<^bold>\<open>Modelling choices.\<close> JavaScript numbers are reals (NaN, the infinities and
  \<^verbatim>\<open>undefined\<close> are not modelled: a GIF frame without a graphic control extension gets an
  \<^verbatim>\<open>undefined\<close> delay from gifuct-js, which the model cannot express, and which the
  manifest records as a finding); a canvas bitmap stores the RGBA bytes written (premultiplied-alpha rounding of
  real canvases is not modelled). An asynchronous drop is one event applied when its load
  completes; events are totally ordered, as the single-threaded page orders them. The
  animation-frame callback reads the current state: it is registered with an empty
  dependency list, so this is an assumption on \<^verbatim>\<open>useAnimationFrame\<close>, which is not among
  the sources. The page model of theory View takes the controls to dispatch neither
  \<open>setGif\<close> nor \<open>markClean\<close>: among the sources only \<^verbatim>\<open>loadImage\<close> and the
  animation-frame callback dispatch them. No fuel or bounds are needed: every function is
  structurally recursive. The sources' loops (\<^verbatim>\<open>decoded.map\<close>, the \<^verbatim>\<open>for\<close> over the
  previous frames) run over finite arrays; the one unbounded loop, the browser's
  animation-frame loop, is the event sequence itself, so the development states no
  termination property beyond the totality of its functions.

  \<^bold>\<open>Plan for further work.\<close> In order: (1) the stale-load race with a model of a
  generation counter and the proof that it discards superseded loads, against C27;
  (2) disposal methods of GIF frames (gifuct's \<open>disposalType\<close>), which the code ignores;
  (3) the UI controls' dispatch sequences (export: \<open>setSaving true\<close>, capture,
  \<open>setSaving false\<close>) as event sequences over C17 and C31, once their sources are
  available.

  \<^bold>\<open>Not modelled.\<close> \<^verbatim>\<open>drawFrame\<close> and \<^verbatim>\<open>qualityToResolution\<close> (\<^verbatim>\<open>~lib/render\<close>,
  \<^verbatim>\<open>~lib/quality\<close>, not under \<^verbatim>\<open>src/\<close>): a draw is recorded as the call with its
  arguments (its frame selection is in the design only), and the resolution mapping is a
  parameter; \<^verbatim>\<open>useAnimationFrame\<close> and \<^verbatim>\<open>useStore\<close> (not under
  \<^verbatim>\<open>src/\<close>); the GIF encoder's type declarations (\<^verbatim>\<open>src/lib/types/gif-encoder-2.d.ts\<close>,
  no code); the styling of the JSX markup (\<^verbatim>\<open>className\<close>), which has no behaviour. The
  browser's canvas API is a library the sources only call: theory Raster gives it the HTML
  specification's semantics as the environment of \<open>frame_canvas\<close>, and it is not counted
  as code of the repository.
\<close>

section \<open>Reachable states of the application\<close>

text \<open>
  The controls dispatch every action but \<open>setGif\<close>, which only \<open>loadImage\<close> dispatches;
  animation-frame callbacks and completed drops come in any order.
\<close>

fun ui_event :: "event \<Rightarrow> bool" where
  "ui_event (Dispatch (SetGif _ _)) = False"
| "ui_event _ = True"

definition initial_world :: "(string \<rightharpoonup> string) \<Rightarrow> world" where
  "initial_world m = \<lparr>st = initialState True m, storage = m, removed = []\<rparr>"

inductive reachable :: "loader_env \<Rightarrow> world \<Rightarrow> bool" for env where
  start: "reachable env (initial_world m)"
| step: "reachable env w \<Longrightarrow> ui_event e \<Longrightarrow> app_step env w e = Inr (w', ds) \<Longrightarrow> reachable env w'"

text \<open>
  The invariant of the application: the store's invariant, and every animation held is
  one \<open>loadImage\<close> built: at least two frames, all of one size, each well formed.
\<close>

definition frames_ok :: "canvas list \<Rightarrow> bool" where
  "frames_ok fs \<longleftrightarrow>
     2 \<le> length fs \<and> (\<exists>w h. \<forall>c\<in>set fs. cv_width c = w \<and> cv_height c = h \<and> canvas_wf c)"

definition app_inv :: "world \<Rightarrow> bool" where
  "app_inv w \<longleftrightarrow> state_inv (st w) \<and> (case frames (st w) of None \<Rightarrow> True | Some fs \<Rightarrow> frames_ok fs)"

subsection \<open>Sample inputs\<close>

text \<open>A two-frame 1x1 GIF and drops of a file of a given type, the inputs of the examples below.\<close>

definition sample_frames :: "js_number \<Rightarrow> parsed_frame list" where
  "sample_frames d =
     [\<lparr>patch = [255, 0, 0, 255], dims = \<lparr>d_width = 1, d_height = 1, d_top = 0, d_left = 0\<rparr>, fr_delay = d\<rparr>,
      \<lparr>patch = [0, 0, 255, 255], dims = \<lparr>d_width = 1, d_height = 1, d_top = 0, d_left = 0\<rparr>, fr_delay = d\<rparr>]"

definition sample_env :: "js_number \<Rightarrow> loader_env" where
  "sample_env d =
     \<lparr>create_object_url = \<lambda>f. ''blob:'' @ file_type f,
      parse_gif = \<lambda>_. Inr \<lparr>lsd_width = 1, lsd_height = 1\<rparr>,
      decompress_frames = \<lambda>_. Inr (sample_frames d),
      context_available = True\<rparr>"

definition drop_of :: "string \<Rightarrow> data_transfer" where
  "drop_of ty = \<lparr>dt_items = Some [Some \<lparr>file_type = ty, file_bytes = []\<rparr>], dt_files = []\<rparr>"

section \<open>Lemmas\<close>

lemma app_inv_initial: "app_inv (initial_world m)"
  by (simp add: app_inv_def initial_world_def initialState_def state_inv_def)

lemma reducer_app_inv:
  assumes "app_inv w" "reducer w a = Inr w'" "\<forall>fs d. a = SetGif fs d \<longrightarrow> frames_ok fs"
  shows "app_inv w'"
proof -
  have "state_inv (st w')" using assms(1) reducer_state_inv [OF _ assms(2)] by (simp add: app_inv_def)
  moreover have "case frames (st w') of None \<Rightarrow> True | Some fs \<Rightarrow> frames_ok fs"
    using reducer_frames [OF assms(2)] assms(1,3) by (cases a) (auto simp: app_inv_def)
  ultimately show ?thesis by (simp add: app_inv_def)
qed

lemma dispatch_load_app_inv:
  assumes "app_inv w" "dispatch_all w (dispatched (loadImage env f)) = Inr w'"
  shows "app_inv w'"
proof -
  have ok: "frames_ok fs" if "SetGif fs d \<in> set (dispatched (loadImage env f))" for fs d
    using load_image_frames_shape [OF that] by (simp add: frames_ok_def)
  from load_image_dispatched [of env f] show ?thesis
  proof (elim disjE exE)
    assume "dispatched (loadImage env f) = []"
    with assms show ?thesis by simp
  next
    assume d: "dispatched (loadImage env f) = [SetImage (create_object_url env f)]"
    with assms(2) have "reducer w (SetImage (create_object_url env f)) = Inr w'"
      by (simp split: sum.splits)
    from reducer_app_inv [OF assms(1) this] show ?thesis by simp
  next
    fix fs d assume d: "dispatched (loadImage env f) = [SetGif fs d]"
    with assms(2) have r: "reducer w (SetGif fs d) = Inr w'" by (simp split: sum.splits)
    from d ok have "frames_ok fs" by simp
    then show ?thesis by (intro reducer_app_inv [OF assms(1) r]) auto
  qed
qed

lemma app_step_app_inv:
  assumes "app_inv w" "ui_event e" "app_step env w e = Inr (w', ds)"
  shows "app_inv w'"
proof (cases e)
  case (Dispatch a)
  with assms have "reducer w a = Inr w'" "\<forall>fs d. a \<noteq> SetGif fs d"
    by (auto elim: ui_event.elims)
  then show ?thesis using reducer_app_inv [OF assms(1)] by simp
next
  case (AnimationFrame att ctx t)
  with assms show ?thesis by (auto simp: app_inv_def state_inv_def split: if_splits)
next
  case (Drop ev)
  with assms(3) have d: "dispatch_all w (dispatched (handle_drop env ev)) = Inr w'"
    by (cases "dispatch_all w (dispatched (handle_drop env ev))") auto
  from handle_drop_dispatched [of env ev] show ?thesis
  proof
    assume "dispatched (handle_drop env ev) = []"
    with d assms(1) show ?thesis by simp
  next
    assume "\<exists>f. dispatched (handle_drop env ev) = dispatched (loadImage env f)"
    with d assms(1) show ?thesis by (auto intro: dispatch_load_app_inv)
  qed
qed

lemma reachable_inv: "reachable env w \<Longrightarrow> app_inv w"
proof (induction rule: reachable.induct)
  case (start m)
  show ?case by (rule app_inv_initial)
next
  case (step w e w' ds)
  then show ?case by (blast intro: app_step_app_inv)
qed

lemma handle_drop_gif:
  assumes "dropped_file dt = Inr (Some f)" "file_type f = ''image/gif''"
  shows "handle_drop env (Some dt) = loadImage env f"
  using assms by (simp add: handle_drop_def starts_with_def)

lemma sample_drop_gif:
  "app_step (sample_env d) w (Drop (Some (drop_of ''image/gif''))) =
     Inr (release w\<lparr>st := (st w)\<lparr>dirty := True, image := None,
            frames := Some [\<lparr>cv_width = 1, cv_height = 1, cv_data = [255, 0, 0, 255]\<rparr>,
                            \<lparr>cv_width = 1, cv_height = 1, cv_data = [0, 0, 255, 255]\<rparr>],
            delay := d\<rparr>\<rparr>, [])"
  by (simp add: sample_env_def sample_frames_def drop_of_def handle_drop_def dropped_file_def
      starts_with_def loadImage_def frame_canvas_def new_image_data_def put_image_data_def
      patch_source_def create_canvas_def resolved_def upt_rec Let_def)

lemma sample_gif_reachable:
  "reachable (sample_env d)
     (release (initial_world Map.empty)\<lparr>st := (st (initial_world Map.empty))\<lparr>dirty := True,
        image := None,
        frames := Some [\<lparr>cv_width = 1, cv_height = 1, cv_data = [255, 0, 0, 255]\<rparr>,
                        \<lparr>cv_width = 1, cv_height = 1, cv_data = [0, 0, 255, 255]\<rparr>],
        delay := d\<rparr>\<rparr>)"
  by (rule reachable.step [OF reachable.start _ sample_drop_gif]) simp

section \<open>Properties of the application\<close>

text \<open>
  C25. In every reachable state of the application an image and an animation are never held
  together, the delay is the sentinel when there is no animation, and every animation held
  has at least two frames, all of one size and well formed.
\<close>

theorem reachable_frames_ok:
  assumes "reachable env w"
  shows "state_inv (st w) \<and> (\<forall>fs. frames (st w) = Some fs \<longrightarrow> frames_ok fs)"
  using reachable_inv [OF assms] by (auto simp: app_inv_def split: option.splits)

theorem reachable_frames_ok_witness:
  "frames_ok [\<lparr>cv_width = 1, cv_height = 1, cv_data = [255, 0, 0, 255]\<rparr>,
              \<lparr>cv_width = 1, cv_height = 1, cv_data = [0, 0, 255, 255]\<rparr>]"
proof -
  from reachable_frames_ok [OF sample_gif_reachable [of 40]] show ?thesis by simp
qed

text \<open>
  C26. End to end: dropping a GIF of two or more well-formed frames installs the frame
  sequence with the first frame's delay and marks the state dirty; the next animation
  frame draws exactly that state and clears the flag.
\<close>

theorem drop_gif_then_tick:
  assumes "dropped_file dt = Inr (Some f)" "file_type f = ''image/gif''"
    and "parse_gif env (file_bytes f) = Inr g" "decompress_frames env g = Inr decoded"
    and "2 \<le> length decoded" "context_available env" "\<forall>fr\<in>set decoded. valid_patch fr"
    and "\<not> saving (st w)"
  shows "\<exists>w' fs. app_run env w [Drop (Some dt), AnimationFrame True True t] =
            Inr (w', [\<lparr>dc_state = (st w)\<lparr>dirty := True, image := None, frames := Some fs,
                                           delay := fr_delay (hd decoded)\<rparr>, dc_time = t\<rparr>]) \<and>
            length fs = length decoded \<and> \<not> dirty (st w') \<and>
            abs_source (st w') = Sequence fs (fr_delay (hd decoded))"
proof -
  let ?fs = "map (\<lambda>fr. put_image_data (create_canvas (lsd_width g) (lsd_height g))
                (frame_image fr) (int (d_left (dims fr))) (int (d_top (dims fr)))) decoded"
  have m: "map_js (frame_canvas env g) decoded = Inr ?fs"
    using assms(6,7) by (intro map_js_all_Inr) (simp add: frame_canvas_Inr)
  have "\<not> length decoded = 0" "\<not> length decoded = 1" using assms(5) by auto
  then have load: "loadImage env f = resolved [SetGif ?fs (fr_delay (hd decoded))]"
    using assms(2-4) m by (simp only: load_image_gif if_False sum.case)
  have drop: "handle_drop env (Some dt) = resolved [SetGif ?fs (fr_delay (hd decoded))]"
    using handle_drop_gif [OF assms(1,2)] load by simp
  show ?thesis
    using drop assms(8)
    by (auto simp: resolved_def Let_def abs_source_def app_run_Cons_Inr)
qed

theorem drop_gif_then_tick_witness:
  "\<exists>w' fs. app_run (sample_env 40) (initial_world Map.empty)
      [Drop (Some (drop_of ''image/gif'')), AnimationFrame True True 16] =
      Inr (w', [\<lparr>dc_state = (st (initial_world Map.empty))\<lparr>dirty := True, image := None,
                   frames := Some fs, delay := fr_delay (hd (sample_frames 40))\<rparr>, dc_time = 16\<rparr>]) \<and>
      length fs = length (sample_frames 40) \<and> \<not> dirty (st w') \<and>
      abs_source (st w') = Sequence fs (fr_delay (hd (sample_frames 40)))"
  by (rule drop_gif_then_tick [where f = "\<lparr>file_type = ''image/gif'', file_bytes = []\<rparr>"
        and g = "\<lparr>lsd_width = 1, lsd_height = 1\<rparr>"])
     (simp_all add: drop_of_def dropped_file_def sample_env_def sample_frames_def valid_patch_def
        initial_world_def initialState_def)

text \<open>
  C27. When two drops complete one after the other, the source afterwards is the one the
  later completion installs, whatever the earlier one installed: nothing discards the
  result of a load that completes after a newer drop (last completion wins).
\<close>

theorem last_drop_decides_source:
  assumes "app_run env w [Drop ev1, Drop ev2] = Inr (w', ds)"
    and "dispatched (handle_drop env ev2) \<noteq> []"
    and "app_run env w0 [Drop ev2] = Inr (w0', ds0)"
  shows "abs_source (st w') = abs_source (st w0')"
proof -
  from handle_drop_dispatched [of env ev2] assms(2) obtain f where
    d: "dispatched (handle_drop env ev2) = dispatched (loadImage env f)" by blast
  have "(\<exists>u. dispatched (handle_drop env ev2) = [SetImage u]) \<or>
        (\<exists>fs d. dispatched (handle_drop env ev2) = [SetGif fs d])"
    using load_image_dispatched [of env f] d assms(2) by auto
  then show ?thesis
    using assms(1,3) by (auto simp: abs_source_def Let_def split: sum.splits)
qed

theorem last_drop_decides_source_witness:
  "abs_source (st (fst (projr (app_run (sample_env 40) (initial_world Map.empty)
      [Drop (Some (drop_of ''image/png'')), Drop (Some (drop_of ''image/gif''))])))) =
   abs_source (st (fst (projr (app_run (sample_env 40) (initial_world (Map.empty(''k'' \<mapsto> ''v'')))
      [Drop (Some (drop_of ''image/gif''))]))))"
proof -
  let ?r1 = "app_run (sample_env 40) (initial_world Map.empty) [Drop (Some (drop_of ''image/png'')), Drop (Some (drop_of ''image/gif''))]"
  let ?r0 = "app_run (sample_env 40) (initial_world (Map.empty(''k'' \<mapsto> ''v''))) [Drop (Some (drop_of ''image/gif''))]"
  have r1: "?r1 = Inr (fst (projr ?r1), snd (projr ?r1))"
    by (simp add: app_run_Cons_Inr sample_env_def sample_frames_def drop_of_def handle_drop_def
        dropped_file_def starts_with_def loadImage_def frame_canvas_def new_image_data_def
        put_image_data_def patch_source_def create_canvas_def resolved_def upt_rec Let_def)
  have d: "dispatched (handle_drop (sample_env 40) (Some (drop_of ''image/gif''))) \<noteq> []"
    by (simp add: sample_env_def sample_frames_def drop_of_def handle_drop_def dropped_file_def
      starts_with_def loadImage_def frame_canvas_def new_image_data_def resolved_def Let_def)
  have r0: "?r0 = Inr (fst (projr ?r0), snd (projr ?r0))"
    by (simp add: app_run_Cons_Inr sample_env_def sample_frames_def drop_of_def handle_drop_def
        dropped_file_def starts_with_def loadImage_def frame_canvas_def new_image_data_def
        put_image_data_def patch_source_def create_canvas_def resolved_def upt_rec Let_def)
  show ?thesis by (rule last_drop_decides_source [OF r1 d r0])
qed

text \<open>
  C32. A completed drop refines the design's data flow (decoder, then a \<open>setImage\<close> or
  \<open>setSequence\<close> transition): it draws nothing, and the abstract state afterwards is the one
  before, or the \<open>setImageRef\<close> transition of it, or the \<open>setSequence\<close> transition of it with
  at least two frames.
\<close>

theorem drop_refines_spec:
  assumes "app_step env w (Drop ev) = Inr (w', ds)"
  shows "ds = [] \<and>
         (abs_state (st w') = abs_state (st w) \<or>
          (\<exists>u. abs_state (st w') = spec_step (abs_state (st w)) (setImageRef u)) \<or>
          (\<exists>fs d. 2 \<le> length fs \<and> abs_state (st w') = spec_step (abs_state (st w)) (setSequence fs d)))"
proof -
  have r: "dispatch_all w (dispatched (handle_drop env ev)) = Inr w'"
    using assms by (cases "dispatch_all w (dispatched (handle_drop env ev))") auto
  have ds: "ds = []"
    using assms by (cases "dispatch_all w (dispatched (handle_drop env ev))") auto
  consider "dispatched (handle_drop env ev) = []"
    | u where "dispatched (handle_drop env ev) = [SetImage u]"
    | fs d where "dispatched (handle_drop env ev) = [SetGif fs d]"
    using handle_drop_dispatched [of env ev] load_image_dispatched by metis
  then show ?thesis
  proof cases
    case 1 with r ds show ?thesis by simp
  next
    case (2 u) with r ds show ?thesis
      by (auto simp: abs_state_def abs_source_def release_source_def)
  next
    case (3 fs d) with r ds drop_gif_length [OF 3] show ?thesis
      by (auto simp: abs_state_def abs_source_def release_source_def)
  qed
qed

theorem drop_refines_spec_witness:
  "snd (projr (app_step (sample_env 40) (initial_world Map.empty) (Drop (Some (drop_of ''image/png''))))) = [] \<and>
   (abs_state (st (fst (projr (app_step (sample_env 40) (initial_world Map.empty) (Drop (Some (drop_of ''image/png''))))))) =
      abs_state (st (initial_world Map.empty)) \<or>
    (\<exists>u. abs_state (st (fst (projr (app_step (sample_env 40) (initial_world Map.empty) (Drop (Some (drop_of ''image/png''))))))) =
      spec_step (abs_state (st (initial_world Map.empty))) (setImageRef u)) \<or>
    (\<exists>fs d. 2 \<le> length fs \<and>
      abs_state (st (fst (projr (app_step (sample_env 40) (initial_world Map.empty) (Drop (Some (drop_of ''image/png''))))))) =
      spec_step (abs_state (st (initial_world Map.empty))) (setSequence fs d)))"
proof -
  let ?r = "app_step (sample_env 40) (initial_world Map.empty) (Drop (Some (drop_of ''image/png'')))"
  have r: "?r = Inr (fst (projr ?r), snd (projr ?r))"
    by (simp add: sample_env_def drop_of_def handle_drop_def dropped_file_def starts_with_def
        loadImage_def resolved_def Let_def)
  show ?thesis by (rule drop_refines_spec [OF r])
qed

end
